theory Spec2Isabelle
  imports Main
begin

section \<open>Data model (main.go, lines 19-51)\<close>

text \<open>
  The five structs of \<^verbatim>\<open>main.go\<close>. Several of them have fields called \<^verbatim>\<open>Name\<close>,
  \<^verbatim>\<open>Type\<close>, \<^verbatim>\<open>Fields\<close>; the record fields carry a prefix naming the struct so that
  they stay apart. Go strings are byte strings, and so is \<^typ>\<open>string\<close>. A nil slice and
  an empty slice are both the empty list: \<^verbatim>\<open>range\<close>, \<^verbatim>\<open>append\<close> and the templates do not
  tell them apart.
\<close>

record ProtoField =
  pf_Name :: string
  pf_Type :: string
  pf_Repeated :: bool

record ProtoMessage =
  pm_Name :: string
  pm_Fields :: "ProtoField list"

record RenderedField =
  rf_Name :: string
  rf_Type :: string
  rf_Repeated :: bool
  rf_DjangoType :: string

record RenderedMessage =
  rm_Name :: string
  rm_Fields :: "RenderedField list"

record TemplateData =
  AppName :: string
  AppTitle :: string
  Messages :: "RenderedMessage list"

text \<open>
  Go errors: an error of the operating system or of a library, with its message, and
  \<^verbatim>\<open>fmt.Errorf("<msg>: %w", err)\<close>, which wraps an error under a message.
\<close>

datatype error = OsError string | Errorf string error

fun Error :: "error \<Rightarrow> string" where
  "Error (OsError m) = m"
| "Error (Errorf m e) = m @ '': '' @ Error e"

section \<open>The type mapper (main.go, lines 54-67)\<close>

definition PythonType :: "string \<Rightarrow> string" where
  "PythonType protoType =
     (if protoType = ''int32'' \<or> protoType = ''int64'' then ''models.IntegerField()''
      else if protoType = ''string'' then ''models.CharField(max_length=255)''
      else if protoType = ''bool'' then ''models.BooleanField()''
      else if protoType = ''float'' \<or> protoType = ''double'' then ''models.FloatField()''
      else ''models.ForeignKey('' @ protoType @ '', on_delete=models.CASCADE)'')"

section \<open>Regular expressions (package regexp, as far as main.go uses it)\<close>

text \<open>
  The character classes of Go's \<^verbatim>\<open>regexp\<close> syntax are ASCII-only: \<^verbatim>\<open>\s\<close> is
  \<^verbatim>\<open>[\t\n\f\r ]\<close>, \<^verbatim>\<open>\w\<close> is \<^verbatim>\<open>[0-9A-Za-z_]\<close>, \<^verbatim>\<open>\d\<close> is \<^verbatim>\<open>[0-9]\<close>. The class
  \<^verbatim>\<open>[^}]\<close> takes any character but the closing brace; a UTF-8 sequence never holds the
  byte of the brace, so matching it byte by byte captures the same text.
\<close>

definition isSpace :: "char \<Rightarrow> bool" where
  "isSpace c \<longleftrightarrow> c \<in> set [CHR 0x09, CHR 0x0A, CHR 0x0C, CHR 0x0D, CHR '' '']"

definition isWord :: "char \<Rightarrow> bool" where
  "isWord c \<longleftrightarrow>
     c \<in> set ''0123456789ABCDEFGHIJKLMNOPQRSTUVWXYZ_abcdefghijklmnopqrstuvwxyz''"

definition isDigit :: "char \<Rightarrow> bool" where
  "isDigit c \<longleftrightarrow> c \<in> set ''0123456789''"

definition notRBrace :: "char \<Rightarrow> bool" where
  "notRBrace c \<longleftrightarrow> c \<noteq> CHR ''}''"

text \<open>
  The syntax of the two patterns: literals, greedy repetition of a character class
  (\<^verbatim>\<open>*\<close> and \<^verbatim>\<open>+\<close>), a greedy optional group, numbered capture groups and
  concatenation. The flag \<^verbatim>\<open>(?m)\<close> changes \<^verbatim>\<open>^\<close> and \<^verbatim>\<open>$\<close> only, which neither
  pattern uses.
\<close>

datatype re =
    Lit string
  | Star "char \<Rightarrow> bool"
  | Plus "char \<Rightarrow> bool"
  | Opt re
  | Cap nat re
  | Seq re re

text \<open>\<^verbatim>\<open>(?m)message\s+(\w+)\s*{([^}]*)}\<close>\<close>

definition messageRe :: re where
  "messageRe =
     Seq (Lit ''message'') (Seq (Plus isSpace) (Seq (Cap 1 (Plus isWord)) (Seq (Star isSpace)
       (Seq (Lit ''{'') (Seq (Cap 2 (Star notRBrace)) (Lit ''}''))))))"

text \<open>\<^verbatim>\<open>(?m)(repeated\s+)?(\w+)\s+(\w+)\s*=\s*\d+\<close>\<close>

definition fieldRe :: re where
  "fieldRe =
     Seq (Opt (Cap 1 (Seq (Lit ''repeated'') (Plus isSpace)))) (Seq (Cap 2 (Plus isWord))
       (Seq (Plus isSpace) (Seq (Cap 3 (Plus isWord)) (Seq (Star isSpace) (Seq (Lit ''='')
         (Seq (Star isSpace) (Plus isDigit)))))))"

text \<open>
  Go's matching is leftmost-first: of the matches that begin earliest, the one a
  backtracking search finds first. \<open>run r (xs, g)\<close> lists, in the order of that search,
  every way \<open>r\<close> can match at the head of \<open>xs\<close>: what is left of the input, and the capture
  groups (\<open>g\<close> before the match; a group that takes no part keeps the empty string, which is
  what \<^verbatim>\<open>FindAllStringSubmatch\<close> returns for it). A greedy repetition tries the longest
  run first, a greedy optional group tries the group first.
\<close>

type_synonym mstate = "string \<times> (nat \<Rightarrow> string)"

fun prefixOf :: "string \<Rightarrow> string \<Rightarrow> bool" where
  "prefixOf [] ys = True"
| "prefixOf (x # xs) [] = False"
| "prefixOf (x # xs) (y # ys) = (x = y \<and> prefixOf xs ys)"

fun run :: "re \<Rightarrow> mstate \<Rightarrow> mstate list" where
  "run (Lit s) (xs, g) = (if prefixOf s xs then [(drop (length s) xs, g)] else [])"
| "run (Star P) (xs, g) =
     map (\<lambda>i. (drop i xs, g)) (rev [0 ..< Suc (length (takeWhile P xs))])"
| "run (Plus P) (xs, g) =
     map (\<lambda>i. (drop i xs, g)) (rev [1 ..< Suc (length (takeWhile P xs))])"
| "run (Opt r) st = run r st @ [st]"
| "run (Cap n r) (xs, g) =
     map (\<lambda>(ys, h). (ys, h(n := take (length xs - length ys) xs))) (run r (xs, g))"
| "run (Seq r1 r2) st = concat (map (run r2) (run r1 st))"

text \<open>The first match at the head of \<open>xs\<close>: the rest of the input and the groups, group 0
  being the whole match.\<close>

definition matchAt :: "re \<Rightarrow> string \<Rightarrow> mstate option" where
  "matchAt r xs =
     (case run r (xs, \<lambda>_. []) of
        [] \<Rightarrow> None
      | (ys, g) # _ \<Rightarrow> Some (ys, g(0 := take (length xs - length ys) xs)))"

text \<open>The leftmost match in \<open>xs\<close>: how many characters come before it, the rest of the
  input after it, and the groups.\<close>

fun doExecute :: "re \<Rightarrow> string \<Rightarrow> (nat \<times> string \<times> (nat \<Rightarrow> string)) option" where
  "doExecute r [] = (case matchAt r [] of None \<Rightarrow> None | Some (ys, g) \<Rightarrow> Some (0, ys, g))"
| "doExecute r (x # xs) =
     (case matchAt r (x # xs) of
        Some (ys, g) \<Rightarrow> Some (0, ys, g)
      | None \<Rightarrow>
          (case doExecute r xs of None \<Rightarrow> None | Some (k, ys, g) \<Rightarrow> Some (Suc k, ys, g)))"

text \<open>
  \<^verbatim>\<open>allMatches\<close> of package regexp: the successive matches, each searched from the end of
  the one before. \<open>pos\<close> is the offset of \<open>xs\<close> in the text; a match is returned with the
  offsets of its begin and its end. Go treats an empty match apart (it steps over one
  character); both patterns of main.go take at least one character (\<open>matchAt_messageRe_shorter\<close>
  and \<open>matchAt_fieldRe_shorter\<close> below), so that branch is never taken there and the search
  stops in its place.
\<close>

function allMatches :: "re \<Rightarrow> nat \<Rightarrow> string \<Rightarrow> (nat \<times> nat \<times> (nat \<Rightarrow> string)) list" where
  "allMatches r pos xs =
     (case doExecute r xs of
        None \<Rightarrow> []
      | Some (k, ys, g) \<Rightarrow>
          (pos + k, pos + (length xs - length ys), g) #
            (if length ys < length xs then allMatches r (pos + (length xs - length ys)) ys
             else []))"
  by pat_completeness auto
termination
  by (relation "measure (\<lambda>(r, pos, xs). length xs)") auto

declare allMatches.simps [simp del]

definition FindAllStringSubmatch :: "re \<Rightarrow> string \<Rightarrow> (nat \<Rightarrow> string) list" where
  "FindAllStringSubmatch r s = map (\<lambda>(b, e, g). g) (allMatches r 0 s)"

section \<open>The parser (main.go, lines 70-98)\<close>

text \<open>
  \<^verbatim>\<open>strings.TrimSpace\<close> on ASCII text. (It also strips the white space of Unicode beyond
  ASCII; its argument here is group 1 of \<open>fieldRe\<close>, which holds ASCII only.)
\<close>

definition isTrimmed :: "char \<Rightarrow> bool" where
  "isTrimmed c \<longleftrightarrow> c \<in> set [CHR 0x09, CHR 0x0A, CHR 0x0B, CHR 0x0C, CHR 0x0D, CHR '' '']"

definition TrimSpace :: "string \<Rightarrow> string" where
  "TrimSpace s = rev (dropWhile isTrimmed (rev (dropWhile isTrimmed s)))"

text \<open>The inner loop (lines 86-94): the fields of one message body.\<close>

definition parseFields :: "string \<Rightarrow> ProtoField list" where
  "parseFields msgBody =
     map (\<lambda>f. \<lparr>pf_Name = f 3, pf_Type = f 2, pf_Repeated = (TrimSpace (f 1) = ''repeated'')\<rparr>)
       (FindAllStringSubmatch fieldRe msgBody)"

text \<open>Lines 75-97: what \<^verbatim>\<open>ParseProto\<close> does with the text it has read.\<close>

definition parseText :: "string \<Rightarrow> ProtoMessage list" where
  "parseText text =
     map (\<lambda>match. \<lparr>pm_Name = match 1, pm_Fields = parseFields (match 2)\<rparr>)
       (FindAllStringSubmatch messageRe text)"

section \<open>Templates (package text/template, as far as main.go uses it)\<close>

text \<open>
  The six templates are kept as the text of the source; what they render is computed from
  that text by a model of \<^verbatim>\<open>text/template\<close>: its lexer with the trim markers, its
  parser and its evaluator, for the constructs these templates use (text, a field of the
  dot, a pipeline into a function, \<^verbatim>\<open>range\<close>, \<^verbatim>\<open>if\<close>/\<^verbatim>\<open>else\<close>, \<^verbatim>\<open>end\<close>, the builtin
  \<^verbatim>\<open>not\<close> and the function of \<^verbatim>\<open>funcMap\<close>). Anything else is reported as a syntax error.
\<close>

subsection \<open>Values\<close>

datatype val = VStr string | VBool bool | VList "val list" | VStruct "(string \<times> val) list"

fun truth :: "val \<Rightarrow> bool" where
  "truth (VStr s) = (s \<noteq> [])"
| "truth (VBool b) = b"
| "truth (VList vs) = (vs \<noteq> [])"
| "truth (VStruct fs) = True"

subsection \<open>funcMap (main.go, lines 172-174)\<close>

text \<open>
  \<^verbatim>\<open>strings.ToLower\<close> on ASCII text: the letters A to Z are mapped, every other byte is
  kept. (Beyond ASCII the Go function maps Unicode letters too; the templates apply it to
  message names, which \<^verbatim>\<open>\w+\<close> keeps inside ASCII.)
\<close>

definition isAsciiUpper :: "char \<Rightarrow> bool" where
  "isAsciiUpper c \<longleftrightarrow> c \<in> set ''ABCDEFGHIJKLMNOPQRSTUVWXYZ''"

definition toLowerChar :: "char \<Rightarrow> char" where
  "toLowerChar c = (if isAsciiUpper c then char_of (of_char c + (32::nat)) else c)"

definition ToLower :: "string \<Rightarrow> string" where
  "ToLower s = map toLowerChar s"

definition funcNames :: "string list" where
  "funcNames = [''ToLower'', ''not'']"

fun callFunc :: "string \<Rightarrow> val list \<Rightarrow> error + val" where
  "callFunc fn [v] =
     (if fn = ''not'' then Inr (VBool (\<not> truth v))
      else if fn = ''ToLower'' then
        (case v of
           VStr s \<Rightarrow> Inr (VStr (ToLower s))
         | _ \<Rightarrow> Inl (OsError ''template: wrong type for value; expected string''))
      else Inl (OsError (''template: function not defined: '' @ fn)))"
| "callFunc fn _ = Inl (OsError (''template: wrong number of args for '' @ fn))"

subsection \<open>Lexer\<close>

text \<open>
  Text runs to the next \<^verbatim>\<open>{{\<close>; an action runs to the next \<^verbatim>\<open>}}\<close>. A left delimiter
  followed by a minus sign and a space trims the white space at the end of the text before
  it; a right delimiter preceded by a space and a minus sign trims the white space at the
  start of the text after it. An action is returned as its words.
\<close>

datatype item = ItemText string | ItemAction "string list"

definition isTmplSpace :: "char \<Rightarrow> bool" where
  "isTmplSpace c \<longleftrightarrow> c \<in> set [CHR '' '', CHR 0x09, CHR 0x0D, CHR 0x0A]"

definition TrimRight :: "string \<Rightarrow> string" where
  "TrimRight s = rev (dropWhile isTmplSpace (rev s))"

definition TrimLeft :: "string \<Rightarrow> string" where
  "TrimLeft s = dropWhile isTmplSpace s"

fun hasLeftTrimMarker :: "string \<Rightarrow> bool" where
  "hasLeftTrimMarker (a # b # _) = (a = CHR ''-'' \<and> isTmplSpace b)"
| "hasLeftTrimMarker _ = False"

fun hasRightTrimMarker :: "string \<Rightarrow> bool" where
  "hasRightTrimMarker (a # b # _) = (isTmplSpace a \<and> b = CHR ''-'')"
| "hasRightTrimMarker _ = False"

fun actionWords :: "string \<Rightarrow> string \<Rightarrow> string list" where
  "actionWords w [] = (if w = [] then [] else [rev w])"
| "actionWords w (c # cs) =
     (if isTmplSpace c then (if w = [] then actionWords [] cs else rev w # actionWords [] cs)
      else actionWords (c # w) cs)"

datatype mode = InText | InAction

function lexItems :: "mode \<Rightarrow> string \<Rightarrow> string \<Rightarrow> item list option" where
  "lexItems InText acc [] = Some (if acc = [] then [] else [ItemText (rev acc)])"
| "lexItems InText acc [c] = Some [ItemText (rev (c # acc))]"
| "lexItems InText acc (c # d # cs) =
     (if c = CHR ''{'' \<and> d = CHR ''{'' then
        (let txt = (if hasLeftTrimMarker cs then TrimRight (rev acc) else rev acc);
             rest = (if hasLeftTrimMarker cs then drop 2 cs else cs)
         in map_option (\<lambda>its. if txt = [] then its else ItemText txt # its)
              (lexItems InAction [] rest))
      else lexItems InText (c # acc) (d # cs))"
| "lexItems InAction acc [] = None"
| "lexItems InAction acc [c] = None"
| "lexItems InAction acc (c # d # cs) =
     (if hasRightTrimMarker (c # d # cs) \<and> take 2 cs = ''}}'' then
        map_option (\<lambda>its. ItemAction (actionWords [] (rev acc)) # its)
          (lexItems InText [] (TrimLeft (drop 2 cs)))
      else if c = CHR ''}'' \<and> d = CHR ''}'' then
        map_option (\<lambda>its. ItemAction (actionWords [] (rev acc)) # its) (lexItems InText [] cs)
      else lexItems InAction (c # acc) (d # cs))"
  by pat_completeness auto
termination
  by (relation "measure (\<lambda>(m, acc, xs). length xs)")
     (auto simp: TrimLeft_def intro: le_less_trans [OF length_dropWhile_le])

subsection \<open>Parser\<close>

datatype operand = FieldOp string | IdentOp string

type_synonym command = "operand list"

type_synonym pipeline = "command list"

datatype node =
    TextNode string
  | ActionNode pipeline
  | RangeNode pipeline "node list"
  | IfNode pipeline "node list" "node list"

fun parseOperand :: "string \<Rightarrow> operand option" where
  "parseOperand [] = None"
| "parseOperand (c # cs) =
     (if c = CHR ''.'' then (if cs = [] then None else Some (FieldOp cs))
      else if (c # cs) \<in> set funcNames then Some (IdentOp (c # cs))
      else None)"

fun parsePipeline :: "command \<Rightarrow> string list \<Rightarrow> pipeline option" where
  "parsePipeline cmd [] = (if cmd = [] then None else Some [rev cmd])"
| "parsePipeline cmd (w # ws) =
     (if w = ''|'' then
        (if cmd = [] then None else map_option (\<lambda>p. rev cmd # p) (parsePipeline [] ws))
      else (case parseOperand w of
              None \<Rightarrow> None
            | Some x \<Rightarrow> parsePipeline (x # cmd) ws))"

text \<open>The open \<^verbatim>\<open>range\<close> and \<^verbatim>\<open>if\<close> blocks, innermost first, each with the nodes that
  came before it in the block around it.\<close>

datatype frame =
    FRange pipeline "node list"
  | FIf pipeline "node list"
  | FElse pipeline "node list" "node list"

fun build :: "item list \<Rightarrow> node list \<Rightarrow> frame list \<Rightarrow> node list option" where
  "build [] cur [] = Some (rev cur)"
| "build [] cur (f # fs) = None"
| "build (ItemText s # its) cur fs = build its (TextNode s # cur) fs"
| "build (ItemAction ws # its) cur fs =
     (case ws of
        [] \<Rightarrow> None
      | w # args \<Rightarrow>
          if w = ''range'' then
            (case parsePipeline [] args of
               None \<Rightarrow> None
             | Some p \<Rightarrow> build its [] (FRange p cur # fs))
          else if w = ''if'' then
            (case parsePipeline [] args of
               None \<Rightarrow> None
             | Some p \<Rightarrow> build its [] (FIf p cur # fs))
          else if w = ''else'' then
            (case (args, fs) of
               ([], FIf p outer # fs') \<Rightarrow> build its [] (FElse p outer (rev cur) # fs')
             | _ \<Rightarrow> None)
          else if w = ''end'' then
            (case (args, fs) of
               ([], FRange p outer # fs') \<Rightarrow> build its (RangeNode p (rev cur) # outer) fs'
             | ([], FIf p outer # fs') \<Rightarrow> build its (IfNode p (rev cur) [] # outer) fs'
             | ([], FElse p outer thn # fs') \<Rightarrow> build its (IfNode p thn (rev cur) # outer) fs'
             | _ \<Rightarrow> None)
          else
            (case parsePipeline [] ws of
               None \<Rightarrow> None
             | Some p \<Rightarrow> build its (ActionNode p # cur) fs))"

text \<open>\<^verbatim>\<open>template.New("template").Funcs(funcMap).Parse(content)\<close>\<close>

definition Parse :: "string \<Rightarrow> error + node list" where
  "Parse content =
     (case lexItems InText [] content of
        None \<Rightarrow> Inl (OsError ''template: unclosed action'')
      | Some its \<Rightarrow>
          (case build its [] [] of
             None \<Rightarrow> Inl (OsError ''template: syntax error'')
           | Some ns \<Rightarrow> Inr ns))"

subsection \<open>Evaluator\<close>

fun evalField :: "val \<Rightarrow> string \<Rightarrow> error + val" where
  "evalField (VStruct fs) f =
     (case map_of fs f of
        None \<Rightarrow> Inl (OsError (''template: can't evaluate field '' @ f))
      | Some v \<Rightarrow> Inr v)"
| "evalField _ f = Inl (OsError (''template: can't evaluate field '' @ f))"

fun evalArgs :: "val \<Rightarrow> operand list \<Rightarrow> error + val list" where
  "evalArgs dot [] = Inr []"
| "evalArgs dot (FieldOp f # xs) =
     (case evalField dot f of
        Inl e \<Rightarrow> Inl e
      | Inr v \<Rightarrow> (case evalArgs dot xs of Inl e \<Rightarrow> Inl e | Inr vs \<Rightarrow> Inr (v # vs)))"
| "evalArgs dot (IdentOp fn # xs) =
     (case callFunc fn [] of
        Inl e \<Rightarrow> Inl e
      | Inr v \<Rightarrow> (case evalArgs dot xs of Inl e \<Rightarrow> Inl e | Inr vs \<Rightarrow> Inr (v # vs)))"

text \<open>A command of a pipeline; \<open>final\<close> is the value piped into it, if any, which a function
  takes as its last argument.\<close>

fun evalCommand :: "val \<Rightarrow> command \<Rightarrow> val list \<Rightarrow> error + val" where
  "evalCommand dot [] final = Inl (OsError ''template: empty command'')"
| "evalCommand dot (FieldOp f # args) final =
     (if args = [] \<and> final = [] then evalField dot f
      else Inl (OsError (''template: field has arguments: '' @ f)))"
| "evalCommand dot (IdentOp fn # args) final =
     (case evalArgs dot args of
        Inl e \<Rightarrow> Inl e
      | Inr vs \<Rightarrow> callFunc fn (vs @ final))"

fun evalPipeline :: "val \<Rightarrow> pipeline \<Rightarrow> val list \<Rightarrow> error + val" where
  "evalPipeline dot [] final =
     (case final of [v] \<Rightarrow> Inr v | _ \<Rightarrow> Inl (OsError ''template: empty pipeline''))"
| "evalPipeline dot (c # cs) final =
     (case evalCommand dot c final of
        Inl e \<Rightarrow> Inl e
      | Inr v \<Rightarrow> evalPipeline dot cs [v])"

text \<open>What an action prints. The templates print strings only; lists and structs, which
  Go prints in the format of package fmt, are not modelled and reported as an error.\<close>

fun printValue :: "val \<Rightarrow> error + string" where
  "printValue (VStr s) = Inr s"
| "printValue (VBool b) = Inr (if b then ''true'' else ''false'')"
| "printValue _ = Inl (OsError ''template: printing of this value is not modelled'')"

text \<open>The text written so far, and the error that stopped the evaluation, if one did.\<close>

type_synonym rendering = "string \<times> error option"

fun seqOut :: "rendering \<Rightarrow> rendering \<Rightarrow> rendering" where
  "seqOut (s, Some e) _ = (s, Some e)"
| "seqOut (s, None) (t, r) = (s @ t, r)"

fun walk :: "val \<Rightarrow> node \<Rightarrow> rendering"
  and walkList :: "val \<Rightarrow> node list \<Rightarrow> rendering"
  and walkRange :: "val list \<Rightarrow> node list \<Rightarrow> rendering" where
  "walk dot (TextNode s) = (s, None)"
| "walk dot (ActionNode p) =
     (case evalPipeline dot p [] of
        Inl e \<Rightarrow> ([], Some e)
      | Inr v \<Rightarrow> (case printValue v of Inl e \<Rightarrow> ([], Some e) | Inr s \<Rightarrow> (s, None)))"
| "walk dot (IfNode p thn els) =
     (case evalPipeline dot p [] of
        Inl e \<Rightarrow> ([], Some e)
      | Inr v \<Rightarrow> if truth v then walkList dot thn else walkList dot els)"
| "walk dot (RangeNode p body) =
     (case evalPipeline dot p [] of
        Inl e \<Rightarrow> ([], Some e)
      | Inr (VList vs) \<Rightarrow> walkRange vs body
      | Inr _ \<Rightarrow> ([], Some (OsError ''template: range can't iterate over value'')))"
| "walkList dot [] = ([], None)"
| "walkList dot (n # ns) = seqOut (walk dot n) (walkList dot ns)"
| "walkRange [] body = ([], None)"
| "walkRange (v # vs) body = seqOut (walkList v body) (walkRange vs body)"

subsection \<open>The data as the templates see it\<close>

definition fieldVal :: "RenderedField \<Rightarrow> val" where
  "fieldVal f =
     VStruct [(''Name'', VStr (rf_Name f)), (''Type'', VStr (rf_Type f)),
              (''Repeated'', VBool (rf_Repeated f)), (''DjangoType'', VStr (rf_DjangoType f))]"

definition messageVal :: "RenderedMessage \<Rightarrow> val" where
  "messageVal m =
     VStruct [(''Name'', VStr (rm_Name m)), (''Fields'', VList (map fieldVal (rm_Fields m)))]"

definition dataVal :: "TemplateData \<Rightarrow> val" where
  "dataVal d =
     VStruct [(''AppName'', VStr (AppName d)), (''AppTitle'', VStr (AppTitle d)),
              (''Messages'', VList (map messageVal (Messages d)))]"

subsection \<open>The six templates (main.go, lines 178-249)\<close>

definition modelsTemplate :: string where
  "modelsTemplate =
     ''from django.db import models\<newline>'' @
     ''\<newline>'' @
     ''{{- range .Messages }}\<newline>'' @
     ''class {{ .Name }}(models.Model):\<newline>'' @
     ''{{- if not .Fields }}\<newline>'' @
     ''    pass\<newline>'' @
     ''{{- else }}\<newline>'' @
     ''{{- range .Fields }}\<newline>'' @
     ''    {{ .Name }} = {{ .DjangoType }}\<newline>'' @
     ''{{- end }}\<newline>'' @
     ''{{- end }}\<newline>'' @
     ''{{ end }}\<newline>''"

definition serializersTemplate :: string where
  "serializersTemplate =
     ''from rest_framework import serializers\<newline>'' @
     ''{{ range .Messages }}\<newline>'' @
     ''from .models import {{ .Name }}\<newline>'' @
     ''{{ end }}\<newline>'' @
     ''\<newline>'' @
     ''{{ range .Messages }}\<newline>'' @
     ''class {{ .Name }}Serializer(serializers.ModelSerializer):\<newline>'' @
     ''    class Meta:\<newline>'' @
     ''        model = {{ .Name }}\<newline>'' @
     ''        fields = '__all__'\<newline>'' @
     ''{{ end }}\<newline>''"

definition viewsetsTemplate :: string where
  "viewsetsTemplate =
     ''from rest_framework import viewsets\<newline>'' @
     ''{{ range .Messages }}\<newline>'' @
     ''from .models import {{ .Name }}\<newline>'' @
     ''from .serializers import {{ .Name }}Serializer\<newline>'' @
     ''{{ end }}\<newline>'' @
     ''\<newline>'' @
     ''{{ range .Messages }}\<newline>'' @
     ''class {{ .Name }}ViewSet(viewsets.ModelViewSet):\<newline>'' @
     ''    queryset = {{ .Name }}.objects.all()\<newline>'' @
     ''    serializer_class = {{ .Name }}Serializer\<newline>'' @
     ''{{ end }}\<newline>''"

definition urlsTemplate :: string where
  "urlsTemplate =
     ''from django.urls import path, include\<newline>'' @
     ''from rest_framework.routers import DefaultRouter\<newline>'' @
     ''{{ range .Messages }}\<newline>'' @
     ''from .viewsets import {{ .Name }}ViewSet\<newline>'' @
     ''{{ end }}\<newline>'' @
     ''\<newline>'' @
     ''router = DefaultRouter()\<newline>'' @
     ''{{ range .Messages }}\<newline>'' @
     ''router.register(r'{{ .Name | ToLower }}', {{ .Name }}ViewSet)\<newline>'' @
     ''{{ end }}\<newline>'' @
     ''\<newline>'' @
     ''urlpatterns = [\<newline>'' @
     ''    path('' @ [CHR 0x27, CHR 0x27] @ '', include(router.urls)),\<newline>'' @
     '']\<newline>''"

definition adminTemplate :: string where
  "adminTemplate =
     ''from django.contrib import admin\<newline>'' @
     ''{{ range .Messages }}\<newline>'' @
     ''from .models import {{ .Name }}\<newline>'' @
     ''{{ end }}\<newline>'' @
     ''\<newline>'' @
     ''{{ range .Messages }}\<newline>'' @
     ''admin.site.register({{ .Name }})\<newline>'' @
     ''{{ end }}\<newline>''"

definition appsTemplate :: string where
  "appsTemplate =
     ''from django.apps import AppConfig\<newline>'' @
     ''\<newline>'' @
     ''class {{ .AppTitle }}Config(AppConfig):\<newline>'' @
     ''    default_auto_field = 'django.db.models.BigAutoField'\<newline>'' @
     ''    name = '{{ .AppName }}'\<newline>''"

section \<open>Files and the operating system\<close>

text \<open>
  \<^verbatim>\<open>filepath.Join(outputDir, elem...)\<close> is kept as the directory and the elements below
  it; the lexical cleaning that Join does on the joined string is not modelled. Two paths
  are the same file if they are the same directory and elements.
\<close>

type_synonym path = "string \<times> string list"

definition Join :: "string \<Rightarrow> string list \<Rightarrow> path" where
  "Join dir elems = (dir, elems)"

text \<open>
  \<^verbatim>\<open>filepath.Base\<close> (with \<^verbatim>\<open>/\<close> as the separator): the empty path gives a dot; trailing
  slashes are dropped; what follows the last slash is returned, or a slash if nothing is
  left.
\<close>

definition Base :: "string \<Rightarrow> string" where
  "Base p =
     (if p = [] then ''.''
      else
        (let q = rev (dropWhile (\<lambda>c. c = CHR ''/'') (rev p));
             b = rev (takeWhile (\<lambda>c. c \<noteq> CHR ''/'') (rev q))
         in if b = [] then ''/'' else b))"

text \<open>
  What the world outside the program decides in one run: whether reading a file gives its
  text or an error; whether creating a directory fails; whether opening a file for writing
  (\<^verbatim>\<open>os.Create\<close>, and the open inside \<^verbatim>\<open>os.WriteFile\<close>) fails; how many bytes a file takes
  before a write to it fails, if it fails at all; and the order in which the Go runtime
  walks the map \<^verbatim>\<open>files\<close> of \<^verbatim>\<open>GenerateApp\<close> (Go leaves the order of a \<^verbatim>\<open>range\<close> over a
  map open).
\<close>

record world =
  os_ReadFile :: "string \<Rightarrow> error + string"
  os_MkdirAll :: "path \<Rightarrow> error option"
  os_Open :: "path \<Rightarrow> error option"
  os_Write :: "path \<Rightarrow> (nat \<times> error) option"
  rangeOrder :: "string list"

text \<open>The directories made and the files written, with their contents.\<close>

record fs =
  dirs :: "path set"
  files :: "path \<rightharpoonup> string"

definition MkdirAll :: "world \<Rightarrow> path \<Rightarrow> fs \<Rightarrow> error option \<times> fs" where
  "MkdirAll w p st =
     (case os_MkdirAll w p of
        Some e \<Rightarrow> (Some e, st)
      | None \<Rightarrow> (None, st\<lparr>dirs := insert p (dirs st)\<rparr>))"

text \<open>Writing \<open>content\<close> to the open file \<open>p\<close>: all of it, or what the file takes before
  the write fails.\<close>

definition writeBytes :: "world \<Rightarrow> path \<Rightarrow> string \<Rightarrow> fs \<Rightarrow> error option \<times> fs" where
  "writeBytes w p content st =
     (case os_Write w p of
        None \<Rightarrow> (None, st\<lparr>files := (files st)(p \<mapsto> content)\<rparr>)
      | Some (n, e) \<Rightarrow>
          if n < length content then (Some e, st\<lparr>files := (files st)(p \<mapsto> take n content)\<rparr>)
          else (None, st\<lparr>files := (files st)(p \<mapsto> content)\<rparr>))"

text \<open>\<^verbatim>\<open>os.WriteFile(path, []byte(content), 0644)\<close>\<close>

definition WriteFile :: "world \<Rightarrow> path \<Rightarrow> string \<Rightarrow> fs \<Rightarrow> error option \<times> fs" where
  "WriteFile w p content st =
     (case os_Open w p of
        Some e \<Rightarrow> (Some e, st)
      | None \<Rightarrow> writeBytes w p content st)"

text \<open>\<^verbatim>\<open>os.Create(outputPath)\<close>: the file is there and empty, or the call fails.\<close>

definition Create :: "world \<Rightarrow> path \<Rightarrow> fs \<Rightarrow> error option \<times> fs" where
  "Create w p st =
     (case os_Open w p of
        Some e \<Rightarrow> (Some e, st)
      | None \<Rightarrow> (None, st\<lparr>files := (files st)(p \<mapsto> [])\<rparr>))"

text \<open>
  \<^verbatim>\<open>tmpl.Execute(file, data)\<close>: the template writes to the file as it is evaluated. The
  call fails when a write fails or when the evaluation does; the file then holds what
  was written before.
\<close>

definition Execute :: "world \<Rightarrow> node list \<Rightarrow> path \<Rightarrow> TemplateData \<Rightarrow> fs \<Rightarrow> error option \<times> fs" where
  "Execute w tmpl p d st =
     (case walkList (dataVal d) tmpl of
        (out, r) \<Rightarrow>
          (case writeBytes w p out st of
             (Some e, st') \<Rightarrow> (Some e, st')
           | (None, st') \<Rightarrow> (r, st')))"

section \<open>The pipeline (main.go, lines 70-169 and 252-268)\<close>

definition ParseProto :: "world \<Rightarrow> string \<Rightarrow> error + ProtoMessage list" where
  "ParseProto w protoPath =
     (case os_ReadFile w protoPath of
        Inl err \<Rightarrow> Inl (Errorf ''failed to read proto file'' err)
      | Inr data \<Rightarrow> Inr (parseText data))"

text \<open>\<^verbatim>\<open>writeFile\<close> (lines 153-155) assigns the error of \<^verbatim>\<open>os.WriteFile\<close> to the blank
  identifier and returns nothing.\<close>

definition writeFile :: "world \<Rightarrow> path \<Rightarrow> string \<Rightarrow> fs \<Rightarrow> fs" where
  "writeFile w p content st = snd (WriteFile w p content st)"

text \<open>\<^verbatim>\<open>renderToFile\<close> (lines 158-169). The error of the deferred \<^verbatim>\<open>file.Close()\<close> is
  dropped by the source and has no place in the model.\<close>

definition renderToFile :: "world \<Rightarrow> string \<Rightarrow> TemplateData \<Rightarrow> path \<Rightarrow> fs \<Rightarrow> error option \<times> fs" where
  "renderToFile w content d outputPath st =
     (case Parse content of
        Inl err \<Rightarrow> (Some (Errorf ''failed to parse template'' err), st)
      | Inr tmpl \<Rightarrow>
          (case Create w outputPath st of
             (Some err, st') \<Rightarrow> (Some (Errorf ''failed to create file'' err), st')
           | (None, st') \<Rightarrow> Execute w tmpl outputPath d st'))"

text \<open>Lines 107-119: the mapped messages.\<close>

definition renderField :: "ProtoField \<Rightarrow> RenderedField" where
  "renderField f =
     \<lparr>rf_Name = pf_Name f, rf_Type = pf_Type f, rf_Repeated = pf_Repeated f,
      rf_DjangoType = PythonType (pf_Type f)\<rparr>"

definition renderMessage :: "ProtoMessage \<Rightarrow> RenderedMessage" where
  "renderMessage msg = \<lparr>rm_Name = pm_Name msg, rm_Fields = map renderField (pm_Fields msg)\<rparr>"

text \<open>
  Lines 121-126: the rendering context. \<open>caser\<close> stands for
  \<^verbatim>\<open>cases.Title(language.English).String\<close> of package \<^verbatim>\<open>golang.org/x/text/cases\<close>, which
  is not part of the repository.
\<close>

definition templateData :: "(string \<Rightarrow> string) \<Rightarrow> string \<Rightarrow> ProtoMessage list \<Rightarrow> TemplateData" where
  "templateData caser outputDir rawMessages =
     (let appName = Base outputDir
      in \<lparr>AppName = appName, AppTitle = caser appName,
          Messages = map renderMessage rawMessages\<rparr>)"

text \<open>Lines 135-142: the map from file name to template.\<close>

definition templateFiles :: "(string \<times> string) list" where
  "templateFiles =
     [(''models.py'', modelsTemplate),
      (''serializers.py'', serializersTemplate),
      (''viewsets.py'', viewsetsTemplate),
      (''urls.py'', urlsTemplate),
      (''admin.py'', adminTemplate),
      (''apps.py'', appsTemplate)]"

text \<open>Lines 143-147: the loop over the map, in the order \<open>names\<close> of its keys.\<close>

fun renderFiles :: "world \<Rightarrow> TemplateData \<Rightarrow> string \<Rightarrow> string list \<Rightarrow> fs \<Rightarrow> error option \<times> fs" where
  "renderFiles w d outputDir [] st = (None, st)"
| "renderFiles w d outputDir (name # names) st =
     (case map_of templateFiles name of
        None \<Rightarrow> renderFiles w d outputDir names st
      | Some tmpl \<Rightarrow>
          (case renderToFile w tmpl d (Join outputDir [name]) st of
             (Some err, st') \<Rightarrow> (Some (Errorf (''failed to render '' @ name) err), st')
           | (None, st') \<Rightarrow> renderFiles w d outputDir names st'))"

text \<open>The orders the runtime can choose: each key of the map once.\<close>

definition validOrder :: "string list \<Rightarrow> bool" where
  "validOrder names \<longleftrightarrow> distinct names \<and> set names = set (map fst templateFiles)"

definition GenerateApp ::
  "(string \<Rightarrow> string) \<Rightarrow> world \<Rightarrow> string \<Rightarrow> string \<Rightarrow> fs \<Rightarrow> error option \<times> fs" where
  "GenerateApp caser w protoPath outputDir st =
     (case ParseProto w protoPath of
        Inl err \<Rightarrow> (Some err, st)
      | Inr rawMessages \<Rightarrow>
          (let d = templateData caser outputDir rawMessages
           in case MkdirAll w (Join outputDir [''migrations'']) st of
                (Some err, st1) \<Rightarrow>
                  (Some (Errorf ''failed to create migrations directory'' err), st1)
              | (None, st1) \<Rightarrow>
                  (let st2 = writeFile w (Join outputDir [''migrations'', ''__init__.py'']) [] st1;
                       st3 = writeFile w (Join outputDir [''__init__.py'']) [] st2;
                       st4 = writeFile w (Join outputDir [''tests.py'']) ''# placeholder\<newline>'' st3
                   in renderFiles w d outputDir (rangeOrder w) st4)))"

text \<open>
  \<^verbatim>\<open>main\<close> after the flags are parsed: what the process prints or logs, and its exit
  status (\<^verbatim>\<open>log.Fatal\<close> exits with status 1).
\<close>

datatype outcome = Exit nat string

definition main :: "(string \<Rightarrow> string) \<Rightarrow> world \<Rightarrow> string \<Rightarrow> string \<Rightarrow> fs \<Rightarrow> outcome \<times> fs" where
  "main caser w protoPath outputDir st =
     (if protoPath = [] then (Exit 1 ''Please provide a .proto file with -proto flag'', st)
      else
        (case GenerateApp caser w protoPath outputDir st of
           (Some err, st') \<Rightarrow> (Exit 1 (''Error: '' @ Error err), st')
         | (None, st') \<Rightarrow>
             (Exit 0 ([CHR 0xE2, CHR 0x9C, CHR 0x85] @ '' Django app generated at '' @
                outputDir @ ''\<newline>''), st')))"

section \<open>What the templates render\<close>

text \<open>The part of \<^verbatim>\<open>renderToFile\<close> that does not touch the file system: the template is
  parsed and evaluated on the data.\<close>

definition renderText :: "string \<Rightarrow> TemplateData \<Rightarrow> error + rendering" where
  "renderText content d =
     (case Parse content of Inl e \<Rightarrow> Inl e | Inr tmpl \<Rightarrow> Inr (walkList (dataVal d) tmpl))"

text \<open>
  The text of each output file in closed form. These definitions are not taken from the
  source: each is proved equal to what the model of \<^verbatim>\<open>text/template\<close> computes from the
  template of the source (\<open>renderText_models\<close> to \<open>renderText_apps\<close>).
\<close>

definition modelsFieldLine :: "RenderedField \<Rightarrow> string" where
  "modelsFieldLine f = ''\<newline>    '' @ rf_Name f @ '' = '' @ rf_DjangoType f"

definition modelsClass :: "RenderedMessage \<Rightarrow> string" where
  "modelsClass m =
     ''\<newline>class '' @ rm_Name m @ ''(models.Model):'' @
     (if rm_Fields m = [] then ''\<newline>    pass''
      else concat (map modelsFieldLine (rm_Fields m))) @
     ''\<newline>''"

definition modelsText :: "TemplateData \<Rightarrow> string" where
  "modelsText d =
     ''from django.db import models'' @ concat (map modelsClass (Messages d)) @ ''\<newline>''"

definition serializersImport :: "RenderedMessage \<Rightarrow> string" where
  "serializersImport m = ''\<newline>from .models import '' @ rm_Name m @ ''\<newline>''"

definition serializersClass :: "RenderedMessage \<Rightarrow> string" where
  "serializersClass m =
     ''\<newline>class '' @ rm_Name m @ ''Serializer(serializers.ModelSerializer):\<newline>'' @
     ''    class Meta:\<newline>'' @
     ''        model = '' @ rm_Name m @ ''\<newline>'' @
     ''        fields = '__all__'\<newline>''"

definition serializersText :: "TemplateData \<Rightarrow> string" where
  "serializersText d =
     ''from rest_framework import serializers\<newline>'' @
     concat (map serializersImport (Messages d)) @ ''\<newline>\<newline>'' @
     concat (map serializersClass (Messages d)) @ ''\<newline>''"

definition viewsetsImport :: "RenderedMessage \<Rightarrow> string" where
  "viewsetsImport m =
     ''\<newline>from .models import '' @ rm_Name m @ ''\<newline>'' @
     ''from .serializers import '' @ rm_Name m @ ''Serializer\<newline>''"

definition viewsetsClass :: "RenderedMessage \<Rightarrow> string" where
  "viewsetsClass m =
     ''\<newline>class '' @ rm_Name m @ ''ViewSet(viewsets.ModelViewSet):\<newline>'' @
     ''    queryset = '' @ rm_Name m @ ''.objects.all()\<newline>'' @
     ''    serializer_class = '' @ rm_Name m @ ''Serializer\<newline>''"

definition viewsetsText :: "TemplateData \<Rightarrow> string" where
  "viewsetsText d =
     ''from rest_framework import viewsets\<newline>'' @
     concat (map viewsetsImport (Messages d)) @ ''\<newline>\<newline>'' @
     concat (map viewsetsClass (Messages d)) @ ''\<newline>''"

definition urlsImport :: "RenderedMessage \<Rightarrow> string" where
  "urlsImport m = ''\<newline>from .viewsets import '' @ rm_Name m @ ''ViewSet\<newline>''"

definition urlsRegister :: "RenderedMessage \<Rightarrow> string" where
  "urlsRegister m =
     ''\<newline>router.register(r'' @ [CHR 0x27] @ ToLower (rm_Name m) @ [CHR 0x27] @ '', '' @
     rm_Name m @ ''ViewSet)\<newline>''"

definition urlsText :: "TemplateData \<Rightarrow> string" where
  "urlsText d =
     ''from django.urls import path, include\<newline>'' @
     ''from rest_framework.routers import DefaultRouter\<newline>'' @
     concat (map urlsImport (Messages d)) @ ''\<newline>\<newline>'' @
     ''router = DefaultRouter()\<newline>'' @
     concat (map urlsRegister (Messages d)) @ ''\<newline>\<newline>'' @
     ''urlpatterns = [\<newline>'' @
     ''    path('' @ [CHR 0x27, CHR 0x27] @ '', include(router.urls)),\<newline>'' @
     '']\<newline>''"

definition adminImport :: "RenderedMessage \<Rightarrow> string" where
  "adminImport m = ''\<newline>from .models import '' @ rm_Name m @ ''\<newline>''"

definition adminRegister :: "RenderedMessage \<Rightarrow> string" where
  "adminRegister m = ''\<newline>admin.site.register('' @ rm_Name m @ '')\<newline>''"

definition adminText :: "TemplateData \<Rightarrow> string" where
  "adminText d =
     ''from django.contrib import admin\<newline>'' @
     concat (map adminImport (Messages d)) @ ''\<newline>\<newline>'' @
     concat (map adminRegister (Messages d)) @ ''\<newline>''"

definition appsText :: "TemplateData \<Rightarrow> string" where
  "appsText d =
     ''from django.apps import AppConfig\<newline>'' @
     ''\<newline>'' @
     ''class '' @ AppTitle d @ ''Config(AppConfig):\<newline>'' @
     ''    default_auto_field = 'django.db.models.BigAutoField'\<newline>'' @
     ''    name = '' @ [CHR 0x27] @ AppName d @ [CHR 0x27] @ ''\<newline>''"

subsection \<open>The parse trees of the six templates\<close>

lemmas parse_simps =
  Parse_def Let_def isTmplSpace_def TrimRight_def TrimLeft_def funcNames_def

lemma Parse_modelsTemplate:
  "Parse modelsTemplate =
     Inr [TextNode ''from django.db import models'',
          RangeNode [[FieldOp ''Messages'']]
            [TextNode ''\<newline>class '', ActionNode [[FieldOp ''Name'']],
             TextNode ''(models.Model):'',
             IfNode [[IdentOp ''not'', FieldOp ''Fields'']]
               [TextNode ''\<newline>    pass'']
               [RangeNode [[FieldOp ''Fields'']]
                  [TextNode ''\<newline>    '', ActionNode [[FieldOp ''Name'']],
                   TextNode '' = '', ActionNode [[FieldOp ''DjangoType'']]]],
             TextNode ''\<newline>''],
          TextNode ''\<newline>'']"
  by (simp add: modelsTemplate_def parse_simps)

lemma Parse_serializersTemplate:
  "Parse serializersTemplate =
     Inr [TextNode ''from rest_framework import serializers\<newline>'',
          RangeNode [[FieldOp ''Messages'']]
            [TextNode ''\<newline>from .models import '', ActionNode [[FieldOp ''Name'']],
             TextNode ''\<newline>''],
          TextNode ''\<newline>\<newline>'',
          RangeNode [[FieldOp ''Messages'']]
            [TextNode ''\<newline>class '', ActionNode [[FieldOp ''Name'']],
             TextNode (''Serializer(serializers.ModelSerializer):\<newline>'' @
                       ''    class Meta:\<newline>'' @
                       ''        model = ''),
             ActionNode [[FieldOp ''Name'']],
             TextNode (''\<newline>'' @
                       ''        fields = '__all__'\<newline>'')],
          TextNode ''\<newline>'']"
  by (simp add: serializersTemplate_def parse_simps)

lemma Parse_viewsetsTemplate:
  "Parse viewsetsTemplate =
     Inr [TextNode ''from rest_framework import viewsets\<newline>'',
          RangeNode [[FieldOp ''Messages'']]
            [TextNode ''\<newline>from .models import '', ActionNode [[FieldOp ''Name'']],
             TextNode ''\<newline>from .serializers import '',
             ActionNode [[FieldOp ''Name'']], TextNode ''Serializer\<newline>''],
          TextNode ''\<newline>\<newline>'',
          RangeNode [[FieldOp ''Messages'']]
            [TextNode ''\<newline>class '', ActionNode [[FieldOp ''Name'']],
             TextNode ''ViewSet(viewsets.ModelViewSet):\<newline>    queryset = '',
             ActionNode [[FieldOp ''Name'']],
             TextNode ''.objects.all()\<newline>    serializer_class = '',
             ActionNode [[FieldOp ''Name'']], TextNode ''Serializer\<newline>''],
          TextNode ''\<newline>'']"
  by (simp add: viewsetsTemplate_def parse_simps)

lemma Parse_urlsTemplate:
  "Parse urlsTemplate =
     Inr [TextNode (''from django.urls import path, include\<newline>'' @
                    ''from rest_framework.routers import DefaultRouter\<newline>''),
          RangeNode [[FieldOp ''Messages'']]
            [TextNode ''\<newline>from .viewsets import '', ActionNode [[FieldOp ''Name'']],
             TextNode ''ViewSet\<newline>''],
          TextNode ''\<newline>\<newline>router = DefaultRouter()\<newline>'',
          RangeNode [[FieldOp ''Messages'']]
            [TextNode (''\<newline>router.register(r'' @ [CHR 0x27]),
             ActionNode [[FieldOp ''Name''], [IdentOp ''ToLower'']],
             TextNode ([CHR 0x27] @ '', ''), ActionNode [[FieldOp ''Name'']],
             TextNode ''ViewSet)\<newline>''],
          TextNode (''\<newline>\<newline>'' @
                    ''urlpatterns = [\<newline>'' @
                    ''    path('' @ [CHR 0x27, CHR 0x27] @ '', include(router.urls)),\<newline>'' @
                    '']\<newline>'')]"
  by (simp add: urlsTemplate_def parse_simps)

lemma Parse_adminTemplate:
  "Parse adminTemplate =
     Inr [TextNode ''from django.contrib import admin\<newline>'',
          RangeNode [[FieldOp ''Messages'']]
            [TextNode ''\<newline>from .models import '', ActionNode [[FieldOp ''Name'']],
             TextNode ''\<newline>''],
          TextNode ''\<newline>\<newline>'',
          RangeNode [[FieldOp ''Messages'']]
            [TextNode ''\<newline>admin.site.register('', ActionNode [[FieldOp ''Name'']],
             TextNode '')\<newline>''],
          TextNode ''\<newline>'']"
  by (simp add: adminTemplate_def parse_simps)

lemma Parse_appsTemplate:
  "Parse appsTemplate =
     Inr [TextNode ''from django.apps import AppConfig\<newline>\<newline>class '',
          ActionNode [[FieldOp ''AppTitle'']],
          TextNode (''Config(AppConfig):\<newline>'' @
                    ''    default_auto_field = 'django.db.models.BigAutoField'\<newline>'' @
                    ''    name = '' @ [CHR 0x27]),
          ActionNode [[FieldOp ''AppName'']], TextNode [CHR 0x27, CHR ''\<newline>'']]"
  by (simp add: appsTemplate_def parse_simps)

subsection \<open>Evaluating the trees\<close>

lemma walkRange_map:
  "(\<And>x. x \<in> set xs \<Longrightarrow> walkList (g x) body = (h x, None)) \<Longrightarrow>
     walkRange (map g xs) body = (concat (map h xs), None)"
  by (induction xs) simp_all

lemma walk_models_fields:
  "walkRange (map fieldVal fs)
     [TextNode ''\<newline>    '', ActionNode [[FieldOp ''Name'']],
      TextNode '' = '', ActionNode [[FieldOp ''DjangoType'']]] =
   (concat (map modelsFieldLine fs), None)"
  by (rule walkRange_map) (simp add: fieldVal_def modelsFieldLine_def)

lemma walk_models_messages:
  "walkRange (map messageVal ms)
     [TextNode ''\<newline>class '', ActionNode [[FieldOp ''Name'']],
      TextNode ''(models.Model):'',
      IfNode [[IdentOp ''not'', FieldOp ''Fields'']]
        [TextNode ''\<newline>    pass'']
        [RangeNode [[FieldOp ''Fields'']]
           [TextNode ''\<newline>    '', ActionNode [[FieldOp ''Name'']],
            TextNode '' = '', ActionNode [[FieldOp ''DjangoType'']]]],
      TextNode ''\<newline>''] =
   (concat (map modelsClass ms), None)"
  by (rule walkRange_map) (simp add: messageVal_def modelsClass_def walk_models_fields)

lemma renderText_models: "renderText modelsTemplate d = Inr (modelsText d, None)"
  by (simp add: renderText_def Parse_modelsTemplate dataVal_def modelsText_def
      walk_models_messages)

lemma walk_serializers_imports:
  "walkRange (map messageVal ms)
     [TextNode ''\<newline>from .models import '', ActionNode [[FieldOp ''Name'']],
      TextNode ''\<newline>''] =
   (concat (map serializersImport ms), None)"
  by (rule walkRange_map) (simp add: messageVal_def serializersImport_def)

lemma walk_serializers_classes:
  "walkRange (map messageVal ms)
     [TextNode ''\<newline>class '', ActionNode [[FieldOp ''Name'']],
      TextNode (''Serializer(serializers.ModelSerializer):\<newline>'' @
                ''    class Meta:\<newline>'' @
                ''        model = ''),
      ActionNode [[FieldOp ''Name'']],
      TextNode (''\<newline>'' @
                ''        fields = '__all__'\<newline>'')] =
   (concat (map serializersClass ms), None)"
  by (rule walkRange_map) (simp add: messageVal_def serializersClass_def)

lemma renderText_serializers:
  "renderText serializersTemplate d = Inr (serializersText d, None)"
  by (simp add: renderText_def Parse_serializersTemplate dataVal_def serializersText_def
      walk_serializers_imports walk_serializers_classes [simplified])

lemma walk_viewsets_imports:
  "walkRange (map messageVal ms)
     [TextNode ''\<newline>from .models import '', ActionNode [[FieldOp ''Name'']],
      TextNode ''\<newline>from .serializers import '',
      ActionNode [[FieldOp ''Name'']], TextNode ''Serializer\<newline>''] =
   (concat (map viewsetsImport ms), None)"
  by (rule walkRange_map) (simp add: messageVal_def viewsetsImport_def)

lemma walk_viewsets_classes:
  "walkRange (map messageVal ms)
     [TextNode ''\<newline>class '', ActionNode [[FieldOp ''Name'']],
      TextNode ''ViewSet(viewsets.ModelViewSet):\<newline>    queryset = '',
      ActionNode [[FieldOp ''Name'']],
      TextNode ''.objects.all()\<newline>    serializer_class = '',
      ActionNode [[FieldOp ''Name'']], TextNode ''Serializer\<newline>''] =
   (concat (map viewsetsClass ms), None)"
  by (rule walkRange_map) (simp add: messageVal_def viewsetsClass_def)

lemma renderText_viewsets: "renderText viewsetsTemplate d = Inr (viewsetsText d, None)"
  by (simp add: renderText_def Parse_viewsetsTemplate dataVal_def viewsetsText_def
      walk_viewsets_imports walk_viewsets_classes)

lemma walk_urls_imports:
  "walkRange (map messageVal ms)
     [TextNode ''\<newline>from .viewsets import '', ActionNode [[FieldOp ''Name'']],
      TextNode ''ViewSet\<newline>''] =
   (concat (map urlsImport ms), None)"
  by (rule walkRange_map) (simp add: messageVal_def urlsImport_def)

lemma walk_urls_registers:
  "walkRange (map messageVal ms)
     [TextNode (''\<newline>router.register(r'' @ [CHR 0x27]),
      ActionNode [[FieldOp ''Name''], [IdentOp ''ToLower'']],
      TextNode ([CHR 0x27] @ '', ''), ActionNode [[FieldOp ''Name'']],
      TextNode ''ViewSet)\<newline>''] =
   (concat (map urlsRegister ms), None)"
  by (rule walkRange_map) (simp add: messageVal_def urlsRegister_def)

lemma renderText_urls: "renderText urlsTemplate d = Inr (urlsText d, None)"
  by (simp add: renderText_def Parse_urlsTemplate dataVal_def urlsText_def
      walk_urls_imports walk_urls_registers [simplified])

lemma walk_admin_imports:
  "walkRange (map messageVal ms)
     [TextNode ''\<newline>from .models import '', ActionNode [[FieldOp ''Name'']],
      TextNode ''\<newline>''] =
   (concat (map adminImport ms), None)"
  by (rule walkRange_map) (simp add: messageVal_def adminImport_def)

lemma walk_admin_registers:
  "walkRange (map messageVal ms)
     [TextNode ''\<newline>admin.site.register('', ActionNode [[FieldOp ''Name'']],
      TextNode '')\<newline>''] =
   (concat (map adminRegister ms), None)"
  by (rule walkRange_map) (simp add: messageVal_def adminRegister_def)

lemma renderText_admin: "renderText adminTemplate d = Inr (adminText d, None)"
  by (simp add: renderText_def Parse_adminTemplate dataVal_def adminText_def
      walk_admin_imports walk_admin_registers)

lemma renderText_apps: "renderText appsTemplate d = Inr (appsText d, None)"
  by (simp add: renderText_def Parse_appsTemplate dataVal_def appsText_def)

section \<open>Properties of the pattern matcher\<close>

lemma prefixOf_iff: "prefixOf s xs \<longleftrightarrow> take (length s) xs = s"
  by (induction s xs rule: prefixOf.induct) auto

lemma prefixOf_append: "prefixOf s xs \<Longrightarrow> xs = s @ drop (length s) xs"
  by (metis append_take_drop_id prefixOf_iff)

lemma in_run_Seq:
  "y \<in> set (run (Seq r1 r2) st) \<longleftrightarrow> (\<exists>m \<in> set (run r1 st). y \<in> set (run r2 m))"
  by auto

lemma run_suffix:
  "(ys, h) \<in> set (run r (xs, g)) \<Longrightarrow> \<exists>p. xs = p @ ys"
proof (induction r arbitrary: xs g ys h)
  case (Lit s)
  then show ?case by (auto split: if_splits dest: prefixOf_append)
next
  case (Star P)
  then show ?case by (auto intro: append_take_drop_id [symmetric])
next
  case (Plus P)
  then show ?case by (auto intro: append_take_drop_id [symmetric])
next
  case (Opt r)
  then show ?case by auto
next
  case (Cap n r)
  then show ?case by auto
next
  case (Seq r1 r2)
  from Seq.prems obtain zs k where m: "(zs, k) \<in> set (run r1 (xs, g))"
    and y: "(ys, h) \<in> set (run r2 (zs, k))"
    by auto
  from Seq.IH(1) [OF m] obtain p where "xs = p @ zs" ..
  moreover from Seq.IH(2) [OF y] obtain q where "zs = q @ ys" ..
  ultimately have "xs = (p @ q) @ ys" by simp
  then show ?case ..
qed

lemma matchAt_suffix:
  assumes "matchAt r xs = Some (ys, g)"
  shows "\<exists>p. xs = p @ ys"
proof -
  from assms obtain h where "(ys, h) \<in> set (run r (xs, \<lambda>_. []))"
    by (auto simp: matchAt_def split: list.splits)
  then show ?thesis by (rule run_suffix)
qed

lemma doExecute_Some:
  "doExecute r xs = Some (k, ys, g) \<Longrightarrow>
     k \<le> length xs \<and> matchAt r (drop k xs) = Some (ys, g) \<and>
     (\<forall>j<k. matchAt r (drop j xs) = None)"
proof (induction xs arbitrary: k)
  case Nil
  then show ?case by (auto split: option.splits)
next
  case (Cons x xs)
  show ?case
  proof (cases "matchAt r (x # xs)")
    case None
    with Cons.prems obtain k' where k': "doExecute r xs = Some (k', ys, g)" and k: "k = Suc k'"
      by (auto split: option.splits)
    from Cons.IH [OF k'] have ih: "k' \<le> length xs" "matchAt r (drop k' xs) = Some (ys, g)"
      "\<forall>j<k'. matchAt r (drop j xs) = None" by auto
    have "matchAt r (drop j (x # xs)) = None" if "j < k" for j
      using that None ih(3) k by (cases j) auto
    with ih k show ?thesis by simp
  next
    case (Some a)
    with Cons.prems show ?thesis by (auto split: prod.splits)
  qed
qed

lemma doExecute_None:
  "doExecute r xs = None \<longleftrightarrow> (\<forall>j\<le>length xs. matchAt r (drop j xs) = None)"
proof (induction xs)
  case Nil
  then show ?case by (auto split: option.splits)
next
  case (Cons x xs)
  have "(\<forall>j\<le>length (x # xs). matchAt r (drop j (x # xs)) = None) \<longleftrightarrow>
        matchAt r (x # xs) = None \<and> (\<forall>j\<le>length xs. matchAt r (drop j xs) = None)"
    (is "?L \<longleftrightarrow> ?R")
  proof
    assume l: ?L
    have "matchAt r (drop j xs) = None" if "j \<le> length xs" for j
      using l [rule_format, of "Suc j"] that by simp
    moreover have "matchAt r (x # xs) = None" using l [rule_format, of 0] by simp
    ultimately show ?R by simp
  next
    assume r: ?R
    show ?L
    proof (intro allI impI)
      fix j assume "j \<le> length (x # xs)"
      then show "matchAt r (drop j (x # xs)) = None" using r by (cases j) auto
    qed
  qed
  with Cons.IH show ?case by (auto split: option.splits)
qed

lemma take_takeWhile_all:
  "i \<le> length (takeWhile P xs) \<Longrightarrow> \<forall>c \<in> set (take i xs). P c"
proof (induction xs arbitrary: i)
  case Nil
  then show ?case by simp
next
  case (Cons x xs)
  then show ?case by (cases i) (auto split: if_splits)
qed

lemma set_rev_upt_Suc: "set (rev [a ..< Suc n]) = {i. a \<le> i \<and> i \<le> n}"
  by auto

lemma in_run_Star:
  "(ys, h) \<in> set (run (Star P) (xs, g)) \<longleftrightarrow>
     (\<exists>i \<le> length (takeWhile P xs). ys = drop i xs \<and> h = g)"
  unfolding run.simps set_map set_rev_upt_Suc by auto

lemma in_run_Plus:
  "(ys, h) \<in> set (run (Plus P) (xs, g)) \<longleftrightarrow>
     (\<exists>i \<le> length (takeWhile P xs). 1 \<le> i \<and> ys = drop i xs \<and> h = g)"
  unfolding run.simps set_map set_rev_upt_Suc by auto

lemma run_Lit_E:
  assumes "(ys, h) \<in> set (run (Lit s) (xs, g))"
  shows "xs = s @ ys \<and> h = g"
  using assms by (auto split: if_splits dest: prefixOf_append)

lemma run_Star_E:
  assumes "(ys, h) \<in> set (run (Star P) (xs, g))"
  shows "\<exists>p. xs = p @ ys \<and> (\<forall>c \<in> set p. P c) \<and> h = g"
proof -
  from assms obtain i where i: "i \<le> length (takeWhile P xs)" and ys: "ys = drop i xs" and "h = g"
    unfolding in_run_Star by blast
  then have "xs = take i xs @ ys \<and> (\<forall>c \<in> set (take i xs). P c) \<and> h = g"
    using take_takeWhile_all [OF i] by simp
  then show ?thesis ..
qed

lemma run_Plus_E:
  assumes "(ys, h) \<in> set (run (Plus P) (xs, g))"
  shows "\<exists>p. xs = p @ ys \<and> p \<noteq> [] \<and> (\<forall>c \<in> set p. P c) \<and> h = g"
proof -
  from assms obtain i where i: "i \<le> length (takeWhile P xs)" and i1: "1 \<le> i"
    and ys: "ys = drop i xs" and "h = g"
    unfolding in_run_Plus by blast
  from i have "i \<le> length xs" using length_takeWhile_le [of P xs] by linarith
  with i1 have "take i xs \<noteq> []" by auto
  then have "xs = take i xs @ ys \<and> take i xs \<noteq> [] \<and> (\<forall>c \<in> set (take i xs). P c) \<and> h = g"
    using take_takeWhile_all [OF i] ys \<open>h = g\<close> by simp
  then show ?thesis ..
qed

lemma run_Cap_E:
  assumes "(ys, h) \<in> set (run (Cap n r) (xs, g))"
  shows "\<exists>p h'. xs = p @ ys \<and> (ys, h') \<in> set (run r (xs, g)) \<and> h = h'(n := p)"
proof -
  from assms have
    "(ys, h) \<in> (\<lambda>(ys, h). (ys, h(n := take (length xs - length ys) xs))) ` set (run r (xs, g))"
    by simp
  then obtain z where z: "z \<in> set (run r (xs, g))"
    and e: "(ys, h) = (case z of (ys, h) \<Rightarrow> (ys, h(n := take (length xs - length ys) xs)))"
    by blast
  obtain ys' h' where z': "z = (ys', h')" by (cases z)
  from e z' have ys: "ys' = ys" and h: "h = h'(n := take (length xs - length ys) xs)"
    by simp_all
  from z z' ys have r: "(ys, h') \<in> set (run r (xs, g))" by simp
  from run_suffix [OF r] obtain p where p: "xs = p @ ys" ..
  then have "take (length xs - length ys) xs = p" by simp
  with h have h2: "h = h'(n := p)" by (simp only:)
  show ?thesis
  proof (intro exI conjI)
    show "xs = p @ ys" by (fact p)
    show "(ys, h') \<in> set (run r (xs, g))" by (fact r)
    show "h = h'(n := p)" by (fact h2)
  qed
qed

lemma run_Seq_E:
  assumes "(ys, h) \<in> set (run (Seq r1 r2) (xs, g))"
  shows "\<exists>zs k. (zs, k) \<in> set (run r1 (xs, g)) \<and> (ys, h) \<in> set (run r2 (zs, k))"
  using assms by auto

lemma run_Opt_E:
  assumes "(ys, h) \<in> set (run (Opt r) (xs, g))"
  shows "(ys, h) \<in> set (run r (xs, g)) \<or> (ys = xs \<and> h = g)"
  using assms by auto

text \<open>The shape of a match of the message pattern.\<close>

lemma run_messageRe_E:
  assumes "(ys, h) \<in> set (run messageRe (xs, g))"
  shows "\<exists>s1 name s2 body.
           xs = ''message'' @ s1 @ name @ s2 @ ''{'' @ body @ ''}'' @ ys \<and>
           s1 \<noteq> [] \<and> (\<forall>c \<in> set s1. isSpace c) \<and>
           name \<noteq> [] \<and> (\<forall>c \<in> set name. isWord c) \<and>
           (\<forall>c \<in> set s2. isSpace c) \<and> (\<forall>c \<in> set body. c \<noteq> CHR ''}'') \<and>
           h = g(1 := name, 2 := body)"
proof -
  from assms [unfolded messageRe_def] obtain x1 g1 where
    a1: "(x1, g1) \<in> set (run (Lit ''message'') (xs, g))" and
    b1: "(ys, h) \<in> set (run (Seq (Plus isSpace) (Seq (Cap 1 (Plus isWord)) (Seq (Star isSpace)
       (Seq (Lit ''{'') (Seq (Cap 2 (Star notRBrace)) (Lit ''}'')))))) (x1, g1))"
    by (blast dest: run_Seq_E)
  from b1 obtain x2 g2 where
    a2: "(x2, g2) \<in> set (run (Plus isSpace) (x1, g1))" and
    b2: "(ys, h) \<in> set (run (Seq (Cap 1 (Plus isWord)) (Seq (Star isSpace)
       (Seq (Lit ''{'') (Seq (Cap 2 (Star notRBrace)) (Lit ''}''))))) (x2, g2))"
    by (blast dest: run_Seq_E)
  from b2 obtain x3 g3 where
    a3: "(x3, g3) \<in> set (run (Cap 1 (Plus isWord)) (x2, g2))" and
    b3: "(ys, h) \<in> set (run (Seq (Star isSpace)
       (Seq (Lit ''{'') (Seq (Cap 2 (Star notRBrace)) (Lit ''}'')))) (x3, g3))"
    by (blast dest: run_Seq_E)
  from b3 obtain x4 g4 where
    a4: "(x4, g4) \<in> set (run (Star isSpace) (x3, g3))" and
    b4: "(ys, h) \<in> set (run (Seq (Lit ''{'') (Seq (Cap 2 (Star notRBrace)) (Lit ''}''))) (x4, g4))"
    by (blast dest: run_Seq_E)
  from b4 obtain x5 g5 where
    a5: "(x5, g5) \<in> set (run (Lit ''{'') (x4, g4))" and
    b5: "(ys, h) \<in> set (run (Seq (Cap 2 (Star notRBrace)) (Lit ''}'')) (x5, g5))"
    by (blast dest: run_Seq_E)
  from b5 obtain x6 g6 where
    a6: "(x6, g6) \<in> set (run (Cap 2 (Star notRBrace)) (x5, g5))" and
    b6: "(ys, h) \<in> set (run (Lit ''}'') (x6, g6))"
    by (blast dest: run_Seq_E)
  from run_Lit_E [OF a1] have 1: "xs = ''message'' @ x1" "g1 = g" by blast+
  from run_Plus_E [OF a2] obtain s1 where
    2: "x1 = s1 @ x2" "s1 \<noteq> []" "\<forall>c \<in> set s1. isSpace c" "g2 = g1" by blast
  from run_Cap_E [OF a3] obtain name h3 where
    3: "x2 = name @ x3" "(x3, h3) \<in> set (run (Plus isWord) (x2, g2))" "g3 = h3(1 := name)"
    by blast
  from run_Plus_E [OF 3(2)] obtain name' where
    w3: "x2 = name' @ x3" "name' \<noteq> []" "\<forall>c \<in> set name'. isWord c" "h3 = g2" by blast
  from 3(1) w3(1) have nm: "name' = name" by simp
  from run_Star_E [OF a4] obtain s2 where
    4: "x3 = s2 @ x4" "\<forall>c \<in> set s2. isSpace c" "g4 = g3" by blast
  from run_Lit_E [OF a5] have 5: "x4 = ''{'' @ x5" "g5 = g4" by blast+
  from run_Cap_E [OF a6] obtain body h6 where
    6: "x5 = body @ x6" "(x6, h6) \<in> set (run (Star notRBrace) (x5, g5))" "g6 = h6(2 := body)"
    by blast
  from run_Star_E [OF 6(2)] obtain body' where
    w6: "x5 = body' @ x6" "\<forall>c \<in> set body'. notRBrace c" "h6 = g5" by blast
  from 6(1) w6(1) have bd: "body' = body" by simp
  from run_Lit_E [OF b6] have 7: "x6 = ''}'' @ ys" "h = g6" by blast+
  have "xs = ''message'' @ s1 @ name @ s2 @ ''{'' @ body @ ''}'' @ ys"
    using 1 2 3 4 5 6 7 by simp
  moreover have "h = g(1 := name, 2 := body)"
    using 1 2 3 w3 4 5 6 w6 7 by simp
  moreover have "\<forall>c \<in> set body. c \<noteq> CHR ''}''"
    using w6(2) bd by (simp add: notRBrace_def)
  ultimately show ?thesis
    using 2(2,3) w3(2,3) nm 4(2) by blast
qed

definition fieldRest :: re where
  "fieldRest =
     Seq (Cap 2 (Plus isWord))
       (Seq (Plus isSpace) (Seq (Cap 3 (Plus isWord)) (Seq (Star isSpace) (Seq (Lit ''='')
         (Seq (Star isSpace) (Plus isDigit))))))"

lemma run_Cap_Plus_E:
  assumes "(ys, h) \<in> set (run (Cap n (Plus P)) (xs, g))"
  shows "\<exists>p. xs = p @ ys \<and> p \<noteq> [] \<and> (\<forall>c \<in> set p. P c) \<and> h = g(n := p)"
proof -
  from run_Cap_E [OF assms] obtain p h' where
    1: "xs = p @ ys" "(ys, h') \<in> set (run (Plus P) (xs, g))" "h = h'(n := p)"
    by blast
  from run_Plus_E [OF 1(2)] obtain p' where
    2: "xs = p' @ ys" "p' \<noteq> []" "\<forall>c \<in> set p'. P c" "h' = g"
    by blast
  from 1(1) 2(1) have "p' = p" by simp
  with 1 2 have "xs = p @ ys \<and> p \<noteq> [] \<and> (\<forall>c \<in> set p. P c) \<and> h = g(n := p)"
    by simp
  then show ?thesis ..
qed

lemma run_fieldRest_E:
  assumes "(ys, h) \<in> set (run fieldRest (xs, g))"
  shows "\<exists>ty s1 nm s2 s3 ds.
           xs = ty @ s1 @ nm @ s2 @ ''='' @ s3 @ ds @ ys \<and>
           ty \<noteq> [] \<and> (\<forall>c \<in> set ty. isWord c) \<and>
           s1 \<noteq> [] \<and> (\<forall>c \<in> set s1. isSpace c) \<and>
           nm \<noteq> [] \<and> (\<forall>c \<in> set nm. isWord c) \<and>
           (\<forall>c \<in> set s2. isSpace c) \<and> (\<forall>c \<in> set s3. isSpace c) \<and>
           ds \<noteq> [] \<and> (\<forall>c \<in> set ds. isDigit c) \<and>
           h = g(2 := ty, 3 := nm)"
proof -
  from assms [unfolded fieldRest_def] obtain x1 g1 where
    a1: "(x1, g1) \<in> set (run (Cap 2 (Plus isWord)) (xs, g))" and
    b1: "(ys, h) \<in> set (run (Seq (Plus isSpace) (Seq (Cap 3 (Plus isWord)) (Seq (Star isSpace)
       (Seq (Lit ''='') (Seq (Star isSpace) (Plus isDigit)))))) (x1, g1))"
    by (blast dest: run_Seq_E)
  from b1 obtain x2 g2 where
    a2: "(x2, g2) \<in> set (run (Plus isSpace) (x1, g1))" and
    b2: "(ys, h) \<in> set (run (Seq (Cap 3 (Plus isWord)) (Seq (Star isSpace)
       (Seq (Lit ''='') (Seq (Star isSpace) (Plus isDigit))))) (x2, g2))"
    by (blast dest: run_Seq_E)
  from b2 obtain x3 g3 where
    a3: "(x3, g3) \<in> set (run (Cap 3 (Plus isWord)) (x2, g2))" and
    b3: "(ys, h) \<in> set (run (Seq (Star isSpace)
       (Seq (Lit ''='') (Seq (Star isSpace) (Plus isDigit)))) (x3, g3))"
    by (blast dest: run_Seq_E)
  from b3 obtain x4 g4 where
    a4: "(x4, g4) \<in> set (run (Star isSpace) (x3, g3))" and
    b4: "(ys, h) \<in> set (run (Seq (Lit ''='') (Seq (Star isSpace) (Plus isDigit))) (x4, g4))"
    by (blast dest: run_Seq_E)
  from b4 obtain x5 g5 where
    a5: "(x5, g5) \<in> set (run (Lit ''='') (x4, g4))" and
    b5: "(ys, h) \<in> set (run (Seq (Star isSpace) (Plus isDigit)) (x5, g5))"
    by (blast dest: run_Seq_E)
  from b5 obtain x6 g6 where
    a6: "(x6, g6) \<in> set (run (Star isSpace) (x5, g5))" and
    b6: "(ys, h) \<in> set (run (Plus isDigit) (x6, g6))"
    by (blast dest: run_Seq_E)
  from run_Cap_Plus_E [OF a1] obtain ty where
    1: "xs = ty @ x1" "ty \<noteq> []" "\<forall>c \<in> set ty. isWord c" "g1 = g(2 := ty)" by blast
  from run_Plus_E [OF a2] obtain s1 where
    2: "x1 = s1 @ x2" "s1 \<noteq> []" "\<forall>c \<in> set s1. isSpace c" "g2 = g1" by blast
  from run_Cap_Plus_E [OF a3] obtain nm where
    3: "x2 = nm @ x3" "nm \<noteq> []" "\<forall>c \<in> set nm. isWord c" "g3 = g2(3 := nm)" by blast
  from run_Star_E [OF a4] obtain s2 where
    4: "x3 = s2 @ x4" "\<forall>c \<in> set s2. isSpace c" "g4 = g3" by blast
  from run_Lit_E [OF a5] have 5: "x4 = ''='' @ x5" "g5 = g4" by blast+
  from run_Star_E [OF a6] obtain s3 where
    6: "x5 = s3 @ x6" "\<forall>c \<in> set s3. isSpace c" "g6 = g5" by blast
  from run_Plus_E [OF b6] obtain ds where
    7: "x6 = ds @ ys" "ds \<noteq> []" "\<forall>c \<in> set ds. isDigit c" "h = g6" by blast
  have e: "xs = ty @ s1 @ nm @ s2 @ ''='' @ s3 @ ds @ ys"
    using 1(1) 2(1) 3(1) 4(1) 5(1) 6(1) 7(1) by simp
  have hg: "h = g(2 := ty, 3 := nm)"
    using 1(4) 2(4) 3(4) 4(3) 5(2) 6(3) 7(4) by simp
  show ?thesis
  proof (intro exI conjI)
    show "xs = ty @ s1 @ nm @ s2 @ ''='' @ s3 @ ds @ ys" by (fact e)
    show "ty \<noteq> []" by (fact 1(2))
    show "\<forall>c \<in> set ty. isWord c" by (fact 1(3))
    show "s1 \<noteq> []" by (fact 2(2))
    show "\<forall>c \<in> set s1. isSpace c" by (fact 2(3))
    show "nm \<noteq> []" by (fact 3(2))
    show "\<forall>c \<in> set nm. isWord c" by (fact 3(3))
    show "\<forall>c \<in> set s2. isSpace c" by (fact 4(2))
    show "\<forall>c \<in> set s3. isSpace c" by (fact 6(2))
    show "ds \<noteq> []" by (fact 7(2))
    show "\<forall>c \<in> set ds. isDigit c" by (fact 7(3))
    show "h = g(2 := ty, 3 := nm)" by (fact hg)
  qed
qed

lemma fieldRe_unfold: "fieldRe = Seq (Opt (Cap 1 (Seq (Lit ''repeated'') (Plus isSpace)))) fieldRest"
  by (simp add: fieldRe_def fieldRest_def)

lemma run_repeated_E:
  assumes "(ys, h) \<in> set (run (Cap 1 (Seq (Lit ''repeated'') (Plus isSpace))) (xs, g))"
  shows "\<exists>s0. xs = (''repeated'' @ s0) @ ys \<and> s0 \<noteq> [] \<and> (\<forall>c \<in> set s0. isSpace c) \<and>
           h = g(1 := ''repeated'' @ s0)"
proof -
  from run_Cap_E [OF assms] obtain p h' where
    1: "xs = p @ ys" "(ys, h') \<in> set (run (Seq (Lit ''repeated'') (Plus isSpace)) (xs, g))"
       "h = h'(1 := p)"
    by blast
  from run_Seq_E [OF 1(2)] obtain x1 g1 where
    a: "(x1, g1) \<in> set (run (Lit ''repeated'') (xs, g))" and
    b: "(ys, h') \<in> set (run (Plus isSpace) (x1, g1))"
    by blast
  from run_Lit_E [OF a] have 2: "xs = ''repeated'' @ x1" "g1 = g" by blast+
  from run_Plus_E [OF b] obtain s0 where
    3: "x1 = s0 @ ys" "s0 \<noteq> []" "\<forall>c \<in> set s0. isSpace c" "h' = g1" by blast
  from 1(1) 2(1) 3(1) have p: "p = ''repeated'' @ s0" by simp
  have "xs = (''repeated'' @ s0) @ ys \<and> s0 \<noteq> [] \<and> (\<forall>c \<in> set s0. isSpace c) \<and>
        h = g(1 := ''repeated'' @ s0)"
    using 1(1,3) 2(2) 3(2,3,4) p by simp
  then show ?thesis ..
qed

text \<open>The shape of a match of the field pattern.\<close>

lemma run_fieldRe_E:
  assumes "(ys, h) \<in> set (run fieldRe (xs, g))"
  shows "\<exists>rep ty s1 nm s2 s3 ds.
           xs = rep @ ty @ s1 @ nm @ s2 @ ''='' @ s3 @ ds @ ys \<and>
           (rep = [] \<or> (\<exists>s0. rep = ''repeated'' @ s0 \<and> s0 \<noteq> [] \<and> (\<forall>c \<in> set s0. isSpace c))) \<and>
           ty \<noteq> [] \<and> (\<forall>c \<in> set ty. isWord c) \<and>
           s1 \<noteq> [] \<and> (\<forall>c \<in> set s1. isSpace c) \<and>
           nm \<noteq> [] \<and> (\<forall>c \<in> set nm. isWord c) \<and>
           (\<forall>c \<in> set s2. isSpace c) \<and> (\<forall>c \<in> set s3. isSpace c) \<and>
           ds \<noteq> [] \<and> (\<forall>c \<in> set ds. isDigit c) \<and>
           h = g(1 := (if rep = [] then g 1 else rep), 2 := ty, 3 := nm)"
proof -
  from assms [unfolded fieldRe_unfold] obtain x1 g1 where
    a: "(x1, g1) \<in> set (run (Opt (Cap 1 (Seq (Lit ''repeated'') (Plus isSpace)))) (xs, g))" and
    b: "(ys, h) \<in> set (run fieldRest (x1, g1))"
    by (blast dest: run_Seq_E)
  from run_fieldRest_E [OF b] obtain ty s1 nm s2 s3 ds where
    r: "x1 = ty @ s1 @ nm @ s2 @ ''='' @ s3 @ ds @ ys"
       "ty \<noteq> []" "\<forall>c \<in> set ty. isWord c" "s1 \<noteq> []" "\<forall>c \<in> set s1. isSpace c"
       "nm \<noteq> []" "\<forall>c \<in> set nm. isWord c" "\<forall>c \<in> set s2. isSpace c" "\<forall>c \<in> set s3. isSpace c"
       "ds \<noteq> []" "\<forall>c \<in> set ds. isDigit c" "h = g1(2 := ty, 3 := nm)"
    by blast
  from run_Opt_E [OF a] have
    "(\<exists>s0. xs = (''repeated'' @ s0) @ x1 \<and> s0 \<noteq> [] \<and> (\<forall>c \<in> set s0. isSpace c) \<and>
        g1 = g(1 := ''repeated'' @ s0)) \<or> (x1 = xs \<and> g1 = g)"
    using run_repeated_E by blast
  then obtain rep where
    o: "xs = rep @ x1"
       "rep = [] \<or> (\<exists>s0. rep = ''repeated'' @ s0 \<and> s0 \<noteq> [] \<and> (\<forall>c \<in> set s0. isSpace c))"
       "g1 = g(1 := (if rep = [] then g 1 else rep))"
  proof (elim disjE exE conjE)
    fix s0
    assume "xs = (''repeated'' @ s0) @ x1" "s0 \<noteq> []" "\<forall>c \<in> set s0. isSpace c"
      "g1 = g(1 := ''repeated'' @ s0)"
    then show thesis by (intro that [of "''repeated'' @ s0"]) auto
  next
    assume "x1 = xs" "g1 = g"
    then show thesis by (intro that [of "[]"]) auto
  qed
  have e: "xs = rep @ ty @ s1 @ nm @ s2 @ ''='' @ s3 @ ds @ ys"
    using o(1) r(1) by simp
  have hg: "h = g(1 := (if rep = [] then g 1 else rep), 2 := ty, 3 := nm)"
    using o(3) r(12) by simp
  show ?thesis
  proof (intro exI conjI)
    show "xs = rep @ ty @ s1 @ nm @ s2 @ ''='' @ s3 @ ds @ ys" by (fact e)
    show "rep = [] \<or> (\<exists>s0. rep = ''repeated'' @ s0 \<and> s0 \<noteq> [] \<and> (\<forall>c \<in> set s0. isSpace c))"
      by (fact o(2))
    show "ty \<noteq> []" by (fact r(2))
    show "\<forall>c \<in> set ty. isWord c" by (fact r(3))
    show "s1 \<noteq> []" by (fact r(4))
    show "\<forall>c \<in> set s1. isSpace c" by (fact r(5))
    show "nm \<noteq> []" by (fact r(6))
    show "\<forall>c \<in> set nm. isWord c" by (fact r(7))
    show "\<forall>c \<in> set s2. isSpace c" by (fact r(8))
    show "\<forall>c \<in> set s3. isSpace c" by (fact r(9))
    show "ds \<noteq> []" by (fact r(10))
    show "\<forall>c \<in> set ds. isDigit c" by (fact r(11))
    show "h = g(1 := (if rep = [] then g 1 else rep), 2 := ty, 3 := nm)" by (fact hg)
  qed
qed

lemma allMatches_None: "doExecute r xs = None \<Longrightarrow> allMatches r pos xs = []"
  by (subst allMatches.simps) simp

lemma allMatches_Some:
  "doExecute r xs = Some (k, ys, g) \<Longrightarrow>
     allMatches r pos xs =
       (pos + k, pos + (length xs - length ys), g) #
         (if length ys < length xs then allMatches r (pos + (length xs - length ys)) ys else [])"
  by (subst allMatches.simps) simp

lemma doExecute_offsets:
  assumes "doExecute r xs = Some (k, ys, g)"
  shows "k \<le> length xs - length ys" "length ys \<le> length xs" "ys = drop (length xs - length ys) xs"
proof -
  from doExecute_Some [OF assms] have k: "k \<le> length xs"
    and m: "matchAt r (drop k xs) = Some (ys, g)" by auto
  from matchAt_suffix [OF m] obtain p where p: "drop k xs = p @ ys" ..
  then have "length xs - k = length p + length ys"
    by (metis length_append length_drop)
  with k show "k \<le> length xs - length ys" "length ys \<le> length xs" by auto
  have "xs = take k xs @ p @ ys" using p by (metis append_take_drop_id)
  then have "drop (length (take k xs @ p)) xs = ys"
    by (metis append.assoc append_eq_conv_conj)
  moreover have "length (take k xs @ p) = length xs - length ys"
    using \<open>length xs - k = length p + length ys\<close> k by simp
  ultimately show "ys = drop (length xs - length ys) xs" by simp
qed

lemma drop_shift:
  assumes "ys = drop n xs" "pos + n \<le> b"
  shows "drop (b - (pos + n)) ys = drop (b - pos) xs"
proof -
  have "b - (pos + n) + n = b - pos" using assms(2) by arith
  then show ?thesis unfolding assms(1) drop_drop by simp
qed

text \<open>Every reported match is a match of the pattern at its begin offset, and ends at its
  end offset.\<close>

lemma allMatches_sound:
  "(b, e, g) \<in> set (allMatches r pos xs) \<Longrightarrow>
     pos \<le> b \<and> b \<le> e \<and> e \<le> pos + length xs \<and>
     matchAt r (drop (b - pos) xs) = Some (drop (e - pos) xs, g)"
proof (induction r pos xs rule: allMatches.induct)
  case (1 r pos xs)
  show ?case
  proof (cases "doExecute r xs")
    case None
    with "1.prems" show ?thesis by (simp add: allMatches_None)
  next
    case (Some a)
    then obtain k ys g' where d: "doExecute r xs = Some (k, ys, g')" by (cases a) auto
    note o = doExecute_offsets [OF d]
    let ?e = "pos + (length xs - length ys)"
    from "1.prems" have "(b, e, g) = (pos + k, ?e, g') \<or>
        (length ys < length xs \<and> (b, e, g) \<in> set (allMatches r ?e ys))"
      by (simp add: allMatches_Some [OF d] split: if_splits)
    then show ?thesis
    proof (elim disjE conjE)
      assume "(b, e, g) = (pos + k, ?e, g')"
      then have b: "b = pos + k" and e: "e = ?e" and g: "g = g'" by simp_all
      from doExecute_Some [OF d] have "matchAt r (drop k xs) = Some (ys, g')" by simp
      with o(3) have "matchAt r (drop (b - pos) xs) = Some (drop (e - pos) xs, g)"
        using b e g by simp
      with o b e show ?thesis by simp
    next
      assume lt: "length ys < length xs" and m: "(b, e, g) \<in> set (allMatches r ?e ys)"
      from "1.IH" [OF d refl refl lt m] have ih: "?e \<le> b" "b \<le> e" "e \<le> ?e + length ys"
        "matchAt r (drop (b - ?e) ys) = Some (drop (e - ?e) ys, g)" by auto
      have d1: "drop (b - ?e) ys = drop (b - pos) xs"
        using o(3) ih(1) by (rule drop_shift)
      have "?e \<le> e" using ih(1,2) by simp
      with o(3) have d2: "drop (e - ?e) ys = drop (e - pos) xs"
        by (rule drop_shift)
      from ih o d1 d2 show ?thesis by simp
    qed
  qed
qed

text \<open>The reported matches come in the order of the text and do not overlap.\<close>

lemma allMatches_sorted:
  "sorted_wrt (\<lambda>(b, e, g) (b', e', g'). e \<le> b') (allMatches r pos xs)"
proof (induction r pos xs rule: allMatches.induct)
  case (1 r pos xs)
  show ?case
  proof (cases "doExecute r xs")
    case None
    then show ?thesis by (simp add: allMatches_None)
  next
    case (Some a)
    then obtain k ys g' where d: "doExecute r xs = Some (k, ys, g')" by (cases a) auto
    let ?e = "pos + (length xs - length ys)"
    show ?thesis
    proof (cases "length ys < length xs")
      case True
      have "?e \<le> b'" if "(b', e', g'') \<in> set (allMatches r ?e ys)" for b' e' g''
        using allMatches_sound [OF that] by simp
      with "1.IH" [OF d refl refl True] show ?thesis
        by (auto simp: allMatches_Some [OF d] True)
    next
      case False
      then show ?thesis by (simp add: allMatches_Some [OF d])
    qed
  qed
qed

text \<open>For a pattern that takes at least one character: every place of the text where the
  pattern matches lies inside a reported match (at its begin or after it).\<close>

lemma allMatches_complete:
  assumes "\<And>xs ys g. matchAt r xs = Some (ys, g) \<Longrightarrow> length ys < length xs"
    and "pos \<le> j" and "j \<le> pos + length xs" and "matchAt r (drop (j - pos) xs) \<noteq> None"
  shows "\<exists>(b, e, g) \<in> set (allMatches r pos xs). b \<le> j \<and> j < e"
  using assms
proof (induction r pos xs rule: allMatches.induct)
  case (1 r pos xs)
  note ne = "1.prems"(1)
  show ?case
  proof (cases "doExecute r xs")
    case None
    then have "matchAt r (drop (j - pos) xs) = None"
      using "1.prems"(2,3) by (simp add: doExecute_None)
    with "1.prems"(4) show ?thesis by simp
  next
    case (Some a)
    then obtain k ys g' where d: "doExecute r xs = Some (k, ys, g')" by (cases a) auto
    note o = doExecute_offsets [OF d]
    let ?e = "pos + (length xs - length ys)"
    from doExecute_Some [OF d] have m: "matchAt r (drop k xs) = Some (ys, g')"
      and least: "\<forall>i<k. matchAt r (drop i xs) = None" by auto
    from ne [OF m] have lt: "length ys < length xs" by simp
    have kj: "pos + k \<le> j"
    proof (rule ccontr)
      assume "\<not> pos + k \<le> j"
      then have "j - pos < k" using "1.prems"(2) by arith
      with least "1.prems"(4) show False by simp
    qed
    have am: "allMatches r pos xs = (pos + k, ?e, g') # allMatches r ?e ys"
      using lt by (simp add: allMatches_Some [OF d])
    show ?thesis
    proof (cases "j < ?e")
      case True
      have "(pos + k, ?e, g') \<in> set (allMatches r pos xs)"
        unfolding am by (rule list.set_intros(1))
      moreover have "case (pos + k, ?e, g') of (b, e, g) \<Rightarrow> b \<le> j \<and> j < e"
        using kj True by simp
      ultimately show ?thesis by (rule bexI [rotated])
    next
      case False
      then have ej: "?e \<le> j" by simp
      have h1: "j \<le> ?e + length ys" using "1.prems"(3) o(2) by simp
      have h2: "matchAt r (drop (j - ?e) ys) \<noteq> None"
        using "1.prems"(4) drop_shift [OF o(3) ej] by simp
      have "\<exists>(b, e, g) \<in> set (allMatches r ?e ys). b \<le> j \<and> j < e"
        by (rule "1.IH" [OF d refl refl lt ne ej h1 h2])
      then obtain x where x: "x \<in> set (allMatches r ?e ys)"
        and px: "case x of (b, e, g) \<Rightarrow> b \<le> j \<and> j < e" ..
      from x have "x \<in> set (allMatches r pos xs)"
        unfolding am by (rule list.set_intros(2))
      then show ?thesis using px by (rule bexI [rotated])
    qed
  qed
qed

section \<open>Properties of the parser\<close>

lemma matchAt_E:
  assumes "matchAt r xs = Some (ys, g)"
  shows "\<exists>h. (ys, h) \<in> set (run r (xs, \<lambda>_. [])) \<and> g = h(0 := take (length xs - length ys) xs)"
proof (cases "run r (xs, \<lambda>_. [])")
  case Nil
  with assms show ?thesis by (simp add: matchAt_def)
next
  case (Cons a as)
  obtain zs h where a: "a = (zs, h)" by (cases a)
  have "matchAt r xs = Some (zs, h(0 := take (length xs - length zs) xs))"
    unfolding matchAt_def Cons a by simp
  with assms have e: "Some (ys, g) = Some (zs, h(0 := take (length xs - length zs) xs))"
    by (rule trans [OF sym])
  then have zs: "zs = ys" by auto
  from e have g: "g = h(0 := take (length xs - length ys) xs)" unfolding zs by auto
  from Cons a zs have "(ys, h) \<in> set (run r (xs, \<lambda>_. []))" by simp
  with g show ?thesis by (intro exI conjI)
qed

text \<open>A match of the message pattern: the word \<^verbatim>\<open>message\<close>, white space, a name of word
  characters, optional white space, and a body between braces that holds no closing
  brace; group 1 is the name and group 2 the body.\<close>

lemma matchAt_messageRe_E:
  assumes "matchAt messageRe xs = Some (ys, g)"
  shows "\<exists>s1 s2.
           xs = ''message'' @ s1 @ g 1 @ s2 @ ''{'' @ g 2 @ ''}'' @ ys \<and>
           s1 \<noteq> [] \<and> (\<forall>c \<in> set s1. isSpace c) \<and>
           g 1 \<noteq> [] \<and> (\<forall>c \<in> set (g 1). isWord c) \<and>
           (\<forall>c \<in> set s2. isSpace c) \<and> (\<forall>c \<in> set (g 2). c \<noteq> CHR ''}'')"
proof -
  from matchAt_E [OF assms] obtain h where
    h: "(ys, h) \<in> set (run messageRe (xs, \<lambda>_. []))"
    and g: "g = h(0 := take (length xs - length ys) xs)" by blast
  from run_messageRe_E [OF h] obtain s1 name s2 body where
    r: "xs = ''message'' @ s1 @ name @ s2 @ ''{'' @ body @ ''}'' @ ys"
       "s1 \<noteq> []" "\<forall>c \<in> set s1. isSpace c" "name \<noteq> []" "\<forall>c \<in> set name. isWord c"
       "\<forall>c \<in> set s2. isSpace c" "\<forall>c \<in> set body. c \<noteq> CHR ''}''"
       "h = (\<lambda>_. [])(1 := name, 2 := body)"
    by blast
  from g r(8) have g1: "g 1 = name" and g2: "g 2 = body" by simp_all
  show ?thesis
  proof (intro exI conjI)
    show "xs = ''message'' @ s1 @ g 1 @ s2 @ ''{'' @ g 2 @ ''}'' @ ys"
      unfolding g1 g2 by (fact r(1))
    show "s1 \<noteq> []" by (fact r(2))
    show "\<forall>c \<in> set s1. isSpace c" by (fact r(3))
    show "g 1 \<noteq> []" unfolding g1 by (fact r(4))
    show "\<forall>c \<in> set (g 1). isWord c" unfolding g1 by (fact r(5))
    show "\<forall>c \<in> set s2. isSpace c" by (fact r(6))
    show "\<forall>c \<in> set (g 2). c \<noteq> CHR ''}''" unfolding g2 by (fact r(7))
  qed
qed

lemma matchAt_messageRe_shorter:
  assumes "matchAt messageRe xs = Some (ys, g)"
  shows "length ys < length xs"
  using matchAt_messageRe_E [OF assms] by (elim exE conjE) simp

text \<open>A match of the field pattern: optionally the word \<^verbatim>\<open>repeated\<close> and white space
  (group 1), a type of word characters (group 2), white space, a name of word characters
  (group 3), an equals sign between optional white space, and digits.\<close>

lemma matchAt_fieldRe_E:
  assumes "matchAt fieldRe xs = Some (ys, g)"
  shows "\<exists>s1 s2 s3 ds.
           xs = g 1 @ g 2 @ s1 @ g 3 @ s2 @ ''='' @ s3 @ ds @ ys \<and>
           (g 1 = [] \<or> (\<exists>s0. g 1 = ''repeated'' @ s0 \<and> s0 \<noteq> [] \<and> (\<forall>c \<in> set s0. isSpace c))) \<and>
           g 2 \<noteq> [] \<and> (\<forall>c \<in> set (g 2). isWord c) \<and>
           s1 \<noteq> [] \<and> (\<forall>c \<in> set s1. isSpace c) \<and>
           g 3 \<noteq> [] \<and> (\<forall>c \<in> set (g 3). isWord c) \<and>
           (\<forall>c \<in> set s2. isSpace c) \<and> (\<forall>c \<in> set s3. isSpace c) \<and>
           ds \<noteq> [] \<and> (\<forall>c \<in> set ds. isDigit c)"
proof -
  from matchAt_E [OF assms] obtain h where
    h: "(ys, h) \<in> set (run fieldRe (xs, \<lambda>_. []))"
    and g: "g = h(0 := take (length xs - length ys) xs)" by blast
  from run_fieldRe_E [OF h] obtain rep ty s1 nm s2 s3 ds where
    r: "xs = rep @ ty @ s1 @ nm @ s2 @ ''='' @ s3 @ ds @ ys"
       "rep = [] \<or> (\<exists>s0. rep = ''repeated'' @ s0 \<and> s0 \<noteq> [] \<and> (\<forall>c \<in> set s0. isSpace c))"
       "ty \<noteq> []" "\<forall>c \<in> set ty. isWord c" "s1 \<noteq> []" "\<forall>c \<in> set s1. isSpace c"
       "nm \<noteq> []" "\<forall>c \<in> set nm. isWord c" "\<forall>c \<in> set s2. isSpace c" "\<forall>c \<in> set s3. isSpace c"
       "ds \<noteq> []" "\<forall>c \<in> set ds. isDigit c"
       "h = (\<lambda>_. [])(1 := (if rep = [] then (\<lambda>_. []) 1 else rep), 2 := ty, 3 := nm)"
    by blast
  from g r(13) have g1: "g 1 = rep" and g2: "g 2 = ty" and g3: "g 3 = nm" by simp_all
  show ?thesis
  proof (intro exI conjI)
    show "xs = g 1 @ g 2 @ s1 @ g 3 @ s2 @ ''='' @ s3 @ ds @ ys"
      unfolding g1 g2 g3 by (fact r(1))
    show "g 1 = [] \<or> (\<exists>s0. g 1 = ''repeated'' @ s0 \<and> s0 \<noteq> [] \<and> (\<forall>c \<in> set s0. isSpace c))"
      unfolding g1 by (fact r(2))
    show "g 2 \<noteq> []" unfolding g2 by (fact r(3))
    show "\<forall>c \<in> set (g 2). isWord c" unfolding g2 by (fact r(4))
    show "s1 \<noteq> []" by (fact r(5))
    show "\<forall>c \<in> set s1. isSpace c" by (fact r(6))
    show "g 3 \<noteq> []" unfolding g3 by (fact r(7))
    show "\<forall>c \<in> set (g 3). isWord c" unfolding g3 by (fact r(8))
    show "\<forall>c \<in> set s2. isSpace c" by (fact r(9))
    show "\<forall>c \<in> set s3. isSpace c" by (fact r(10))
    show "ds \<noteq> []" by (fact r(11))
    show "\<forall>c \<in> set ds. isDigit c" by (fact r(12))
  qed
qed

lemma matchAt_fieldRe_shorter:
  assumes "matchAt fieldRe xs = Some (ys, g)"
  shows "length ys < length xs"
proof -
  from matchAt_fieldRe_E [OF assms] obtain s1 s2 s3 ds where
    e: "xs = g 1 @ g 2 @ s1 @ g 3 @ s2 @ ''='' @ s3 @ ds @ ys" and "g 2 \<noteq> []"
    by (elim exE conjE)
  have "length xs = length (g 1 @ g 2 @ s1 @ g 3 @ s2 @ ''='' @ s3 @ ds @ ys)"
    by (rule arg_cong [OF e])
  then show ?thesis by simp
qed

lemma isSpace_isTrimmed: "isSpace c \<Longrightarrow> isTrimmed c"
  by (auto simp: isSpace_def isTrimmed_def)

lemma TrimSpace_repeated:
  assumes "\<forall>c \<in> set s0. isSpace c"
  shows "TrimSpace (''repeated'' @ s0) = ''repeated''"
proof -
  have t: "\<forall>c \<in> set (rev s0). isTrimmed c" using assms by (simp add: isSpace_isTrimmed)
  have "dropWhile isTrimmed (rev (''repeated'' @ s0)) = dropWhile isTrimmed (rev ''repeated'')"
    using t by (simp only: rev_append dropWhile_append2)
  also have "\<dots> = rev ''repeated''" by (simp add: isTrimmed_def)
  finally have "rev (dropWhile isTrimmed (rev (''repeated'' @ s0))) = ''repeated''" by simp
  moreover have "dropWhile isTrimmed (''repeated'' @ s0) = ''repeated'' @ s0"
    by (simp add: isTrimmed_def)
  ultimately show ?thesis by (simp only: TrimSpace_def)
qed

text \<open>The repetition flag of a parsed field says whether group 1 took part in the match.\<close>

lemma matchAt_fieldRe_repeated:
  assumes "matchAt fieldRe xs = Some (ys, g)"
  shows "(TrimSpace (g 1) = ''repeated'') = (g 1 \<noteq> [])"
proof -
  from matchAt_fieldRe_E [OF assms] have
    "g 1 = [] \<or> (\<exists>s0. g 1 = ''repeated'' @ s0 \<and> s0 \<noteq> [] \<and> (\<forall>c \<in> set s0. isSpace c))"
    by (elim exE conjE)
  then show ?thesis
  proof (elim disjE exE conjE)
    assume "g 1 = []"
    then show ?thesis by (simp add: TrimSpace_def)
  next
    fix s0 assume g: "g 1 = ''repeated'' @ s0" and s: "\<forall>c \<in> set s0. isSpace c"
    from TrimSpace_repeated [OF s] g show ?thesis by simp
  qed
qed

lemma isWord_not_newline: "isWord c \<Longrightarrow> c \<noteq> CHR ''\<newline>''"
  by (auto simp: isWord_def)

text \<open>The matches that the parser turns into messages and fields.\<close>

lemma FindAll_matchAt:
  assumes "g \<in> set (FindAllStringSubmatch r s)"
  shows "\<exists>xs ys. matchAt r xs = Some (ys, g)"
proof -
  from assms obtain b e where "(b, e, g) \<in> set (allMatches r 0 s)"
    by (auto simp: FindAllStringSubmatch_def)
  from allMatches_sound [OF this]
  have "matchAt r (drop (b - 0) s) = Some (drop (e - 0) s, g)" by (elim conjE)
  then show ?thesis by (intro exI)
qed

lemma parseFields_words:
  assumes "f \<in> set (parseFields body)"
  shows "pf_Name f \<noteq> [] \<and> (\<forall>c \<in> set (pf_Name f). isWord c) \<and>
         pf_Type f \<noteq> [] \<and> (\<forall>c \<in> set (pf_Type f). isWord c)"
proof -
  from assms obtain g where g: "g \<in> set (FindAllStringSubmatch fieldRe body)"
    and f: "f = \<lparr>pf_Name = g 3, pf_Type = g 2, pf_Repeated = (TrimSpace (g 1) = ''repeated'')\<rparr>"
    by (auto simp: parseFields_def)
  from FindAll_matchAt [OF g] obtain xs ys where m: "matchAt fieldRe xs = Some (ys, g)"
    by (elim exE)
  from matchAt_fieldRe_E [OF m] have
    "g 3 \<noteq> [] \<and> (\<forall>c \<in> set (g 3). isWord c) \<and> g 2 \<noteq> [] \<and> (\<forall>c \<in> set (g 2). isWord c)"
    by (elim exE conjE, intro conjI) assumption+
  with f show ?thesis by simp
qed

lemma parseText_words:
  assumes "m \<in> set (parseText text)"
  shows "pm_Name m \<noteq> [] \<and> (\<forall>c \<in> set (pm_Name m). isWord c)"
proof -
  from assms obtain g where g: "g \<in> set (FindAllStringSubmatch messageRe text)"
    and f: "m = \<lparr>pm_Name = g 1, pm_Fields = parseFields (g 2)\<rparr>"
    by (auto simp: parseText_def)
  from FindAll_matchAt [OF g] obtain xs ys where m: "matchAt messageRe xs = Some (ys, g)"
    by (elim exE)
  from matchAt_messageRe_E [OF m] have "g 1 \<noteq> [] \<and> (\<forall>c \<in> set (g 1). isWord c)"
    by (elim exE conjE, intro conjI) assumption+
  with f show ?thesis by simp
qed

lemma parseText_fields:
  assumes "m \<in> set (parseText text)"
  shows "\<exists>body. pm_Fields m = parseFields body"
  using assms by (auto simp: parseText_def)

section \<open>The model declarations, line by line\<close>

text \<open>
  The lines of the file of model declarations, written from the parsed messages as the
  specification describes them: a class line for each message, followed by one line for
  each field in the order of the fields, or by a line \<^verbatim>\<open>pass\<close> when there is none, and
  by an empty line. \<open>joinLines\<close> puts a newline between two lines.
\<close>

fun joinLines :: "string list \<Rightarrow> string" where
  "joinLines [] = []"
| "joinLines [l] = l"
| "joinLines (l # m # ls) = l @ ''\<newline>'' @ joinLines (m # ls)"

definition fieldDeclLine :: "ProtoField \<Rightarrow> string" where
  "fieldDeclLine f = ''    '' @ pf_Name f @ '' = '' @ PythonType (pf_Type f)"

definition classBody :: "ProtoMessage \<Rightarrow> string list" where
  "classBody m = (if pm_Fields m = [] then [''    pass''] else map fieldDeclLine (pm_Fields m))"

definition classLines :: "ProtoMessage \<Rightarrow> string list" where
  "classLines m = (''class '' @ pm_Name m @ ''(models.Model):'') # classBody m @ [[]]"

definition modelsLines :: "ProtoMessage list \<Rightarrow> string list" where
  "modelsLines ms = ''from django.db import models'' # concat (map classLines ms) @ [[]]"

lemma joinLines_Cons: "joinLines (l # ls) = l @ concat (map (\<lambda>x. CHR ''\<newline>'' # x) ls)"
  by (induction ls arbitrary: l) simp_all

lemma modelsFieldLine_renderField:
  "modelsFieldLine (renderField f) = CHR ''\<newline>'' # fieldDeclLine f"
  by (simp add: modelsFieldLine_def renderField_def fieldDeclLine_def)

lemma modelsClass_renderMessage:
  "modelsClass (renderMessage m) = concat (map (\<lambda>x. CHR ''\<newline>'' # x) (classLines m))"
proof -
  have "concat (map modelsFieldLine (map renderField fs)) =
        concat (map (\<lambda>x. CHR ''\<newline>'' # x) (map fieldDeclLine fs))" for fs
    by (induction fs) (simp_all add: modelsFieldLine_renderField)
  then show ?thesis
    by (simp add: modelsClass_def renderMessage_def classLines_def classBody_def)
qed

lemma modelsText_lines:
  "modelsText (templateData caser outputDir ms) = joinLines (modelsLines ms)"
proof -
  have "concat (map modelsClass (map renderMessage ms)) =
        concat (map (\<lambda>x. CHR ''\<newline>'' # x) (concat (map classLines ms)))"
    by (induction ms) (simp_all add: modelsClass_renderMessage)
  then show ?thesis
    by (simp add: modelsText_def templateData_def Let_def modelsLines_def joinLines_Cons comp_def)
qed

lemma PythonType_no_newline:
  assumes "\<forall>c \<in> set t. isWord c"
  shows "CHR ''\<newline>'' \<notin> set (PythonType t)"
proof -
  have "CHR ''\<newline>'' \<notin> set t" using assms isWord_not_newline by blast
  then show ?thesis by (simp add: PythonType_def)
qed

lemma fieldDeclLine_no_newline:
  assumes "f \<in> set (parseFields body)"
  shows "CHR ''\<newline>'' \<notin> set (fieldDeclLine f)"
proof -
  from parseFields_words [OF assms]
  have n: "\<forall>c \<in> set (pf_Name f). isWord c" and t: "\<forall>c \<in> set (pf_Type f). isWord c"
    by simp_all
  from n have "CHR ''\<newline>'' \<notin> set (pf_Name f)" using isWord_not_newline by blast
  with PythonType_no_newline [OF t] show ?thesis by (simp add: fieldDeclLine_def)
qed

lemma classLines_no_newline:
  assumes "m \<in> set (parseText text)" and "l \<in> set (classLines m)"
  shows "CHR ''\<newline>'' \<notin> set l"
proof -
  from parseText_words [OF assms(1)] have "\<forall>c \<in> set (pm_Name m). isWord c" by simp
  then have n: "CHR ''\<newline>'' \<notin> set (pm_Name m)" using isWord_not_newline by blast
  from parseText_fields [OF assms(1)] obtain body where b: "pm_Fields m = parseFields body" ..
  from assms(2) consider "l = ''class '' @ pm_Name m @ ''(models.Model):''"
    | "l = ''    pass''" | "l = []" | f where "f \<in> set (pm_Fields m)" "l = fieldDeclLine f"
    by (auto simp: classLines_def classBody_def split: if_splits)
  then show ?thesis
  proof cases
    case 1
    with n show ?thesis by simp
  next
    case 2
    then show ?thesis by simp
  next
    case 3
    then show ?thesis by simp
  next
    case 4
    with b fieldDeclLine_no_newline show ?thesis by simp
  qed
qed

lemma modelsLines_no_newline:
  assumes "l \<in> set (modelsLines (parseText text))"
  shows "CHR ''\<newline>'' \<notin> set l"
proof -
  from assms consider "l = ''from django.db import models''" | "l = []"
    | m where "m \<in> set (parseText text)" "l \<in> set (classLines m)"
    by (auto simp: modelsLines_def)
  then show ?thesis
  proof cases
    case 1
    then show ?thesis by simp
  next
    case 2
    then show ?thesis by simp
  next
    case 3
    then show ?thesis by (rule classLines_no_newline)
  qed
qed

section \<open>Properties of the pipeline\<close>

text \<open>The text of each file of the map \<^verbatim>\<open>files\<close>, by its name.\<close>

definition fileText :: "string \<Rightarrow> TemplateData \<Rightarrow> string" where
  "fileText name d =
     (if name = ''models.py'' then modelsText d
      else if name = ''serializers.py'' then serializersText d
      else if name = ''viewsets.py'' then viewsetsText d
      else if name = ''urls.py'' then urlsText d
      else if name = ''admin.py'' then adminText d
      else appsText d)"

lemma map_of_templateFiles:
  "map_of templateFiles name =
     (if name = ''models.py'' then Some modelsTemplate
      else if name = ''serializers.py'' then Some serializersTemplate
      else if name = ''viewsets.py'' then Some viewsetsTemplate
      else if name = ''urls.py'' then Some urlsTemplate
      else if name = ''admin.py'' then Some adminTemplate
      else if name = ''apps.py'' then Some appsTemplate
      else None)"
  by (simp add: templateFiles_def)

lemma renderText_templateFiles:
  assumes "map_of templateFiles name = Some content"
  shows "renderText content d = Inr (fileText name d, None)"
  using assms
  by (auto simp: map_of_templateFiles fileText_def renderText_models renderText_serializers
      renderText_viewsets renderText_urls renderText_admin renderText_apps split: if_splits)

lemma Parse_templateFiles:
  assumes "map_of templateFiles name = Some content"
  shows "\<exists>tmpl. Parse content = Inr tmpl \<and> walkList (dataVal d) tmpl = (fileText name d, None)"
  using renderText_templateFiles [OF assms, of d]
  by (auto simp: renderText_def split: sum.splits)

text \<open>What \<^verbatim>\<open>renderToFile\<close> does for a file of the map: the outcome of the open and of
  the write decide.\<close>

lemma renderToFile_templateFiles:
  assumes "map_of templateFiles name = Some content"
  shows "renderToFile w content d p st =
     (case os_Open w p of
        Some e \<Rightarrow> (Some (Errorf ''failed to create file'' e), st)
      | None \<Rightarrow>
          (case os_Write w p of
             None \<Rightarrow> (None, st\<lparr>files := (files st)(p \<mapsto> fileText name d)\<rparr>)
           | Some (n, e) \<Rightarrow>
               if n < length (fileText name d)
               then (Some e, st\<lparr>files := (files st)(p \<mapsto> take n (fileText name d))\<rparr>)
               else (None, st\<lparr>files := (files st)(p \<mapsto> fileText name d)\<rparr>)))"
proof -
  from Parse_templateFiles [OF assms, of d] obtain tmpl where
    p: "Parse content = Inr tmpl" and t: "walkList (dataVal d) tmpl = (fileText name d, None)"
    by blast
  show ?thesis
    by (simp add: renderToFile_def p Create_def Execute_def t writeBytes_def
        split: option.splits)
qed

text \<open>Rendering the file \<open>name\<close> meets no failure: the file opens, and takes the whole
  text.\<close>

definition renderOk :: "world \<Rightarrow> TemplateData \<Rightarrow> string \<Rightarrow> string \<Rightarrow> bool" where
  "renderOk w d outputDir name \<longleftrightarrow>
     os_Open w (Join outputDir [name]) = None \<and>
     (case os_Write w (Join outputDir [name]) of
        None \<Rightarrow> True
      | Some (n, e) \<Rightarrow> length (fileText name d) \<le> n)"

lemma renderToFile_ok:
  assumes "map_of templateFiles name = Some content" and "renderOk w d outputDir name"
  shows "renderToFile w content d (Join outputDir [name]) st =
           (None, st\<lparr>files := (files st)(Join outputDir [name] \<mapsto> fileText name d)\<rparr>)"
  using assms(2)
  by (auto simp: renderToFile_templateFiles [OF assms(1)] renderOk_def split: option.splits)

lemma renderToFile_not_ok:
  assumes "map_of templateFiles name = Some content" and "\<not> renderOk w d outputDir name"
  shows "(\<exists>e. os_Open w (Join outputDir [name]) = Some e \<and>
              renderToFile w content d (Join outputDir [name]) st =
                (Some (Errorf ''failed to create file'' e), st)) \<or>
         (\<exists>n e. os_Open w (Join outputDir [name]) = None \<and>
              os_Write w (Join outputDir [name]) = Some (n, e) \<and> n < length (fileText name d) \<and>
              renderToFile w content d (Join outputDir [name]) st =
                (Some e, st\<lparr>files := (files st)(Join outputDir [name] \<mapsto> take n (fileText name d))\<rparr>))"
  using assms(2)
  by (auto simp: renderToFile_templateFiles [OF assms(1)] renderOk_def split: option.splits)

text \<open>The files that the loop over the map has written when it has rendered the names
  \<open>N\<close>.\<close>

definition renderedFiles :: "TemplateData \<Rightarrow> string \<Rightarrow> string set \<Rightarrow> (path \<rightharpoonup> string)" where
  "renderedFiles d outputDir N =
     (\<lambda>(dir, elems).
        case elems of
          [n] \<Rightarrow>
            if dir = outputDir \<and> n \<in> N \<and> map_of templateFiles n \<noteq> None
            then Some (fileText n d) else None
        | _ \<Rightarrow> None)"

lemma renderedFiles_insert:
  assumes "map_of templateFiles n \<noteq> None"
  shows "m(Join outputDir [n] \<mapsto> fileText n d) ++ renderedFiles d outputDir N =
         m ++ renderedFiles d outputDir (insert n N)"
proof (rule ext)
  fix q :: path
  obtain dir elems where q: "q = (dir, elems)" by (cases q)
  show "(m(Join outputDir [n] \<mapsto> fileText n d) ++ renderedFiles d outputDir N) q =
        (m ++ renderedFiles d outputDir (insert n N)) q"
    using assms
    by (auto simp: q map_add_def renderedFiles_def Join_def split: list.splits option.splits)
qed

lemma renderedFiles_skip:
  assumes "map_of templateFiles n = None"
  shows "renderedFiles d outputDir (insert n N) = renderedFiles d outputDir N"
proof (rule ext)
  fix q :: path
  obtain dir elems where q: "q = (dir, elems)" by (cases q)
  show "renderedFiles d outputDir (insert n N) q = renderedFiles d outputDir N q"
    using assms by (auto simp: q renderedFiles_def split: list.splits)
qed

lemma renderedFiles_empty: "m ++ renderedFiles d outputDir {} = m"
  by (rule ext) (auto simp: map_add_def renderedFiles_def split: list.splits option.splits)

lemma fs_files_update_id: "st\<lparr>files := files st\<rparr> = st"
  by simp

text \<open>When no name of the list meets a failure, the loop returns no error and has written
  the file of each name of the map in the list, whatever the order of the list.\<close>

lemma renderFiles_ok:
  assumes "\<forall>n \<in> set names. map_of templateFiles n \<noteq> None \<longrightarrow> renderOk w d outputDir n"
  shows "renderFiles w d outputDir names st =
           (None, st\<lparr>files := files st ++ renderedFiles d outputDir (set names)\<rparr>)"
  using assms
proof (induction names arbitrary: st)
  case Nil
  show ?case by (simp add: renderedFiles_empty)
next
  case (Cons n names)
  show ?case
  proof (cases "map_of templateFiles n")
    case None
    with Cons show ?thesis by (simp add: renderedFiles_skip)
  next
    case (Some content)
    then have ne: "map_of templateFiles n \<noteq> None" by simp
    with Cons.prems have ok: "renderOk w d outputDir n" by simp
    from Cons.prems have rest:
      "\<forall>n \<in> set names. map_of templateFiles n \<noteq> None \<longrightarrow> renderOk w d outputDir n" by simp
    show ?thesis
      by (simp add: Some renderToFile_ok [OF Some ok] Cons.IH [OF rest]
          renderedFiles_insert [OF ne])
  qed
qed

text \<open>When the loop returns no error, no file of the map in the list met a failure.\<close>

lemma renderFiles_None:
  assumes "renderFiles w d outputDir names st = (None, st')"
  shows "\<forall>n \<in> set names. map_of templateFiles n \<noteq> None \<longrightarrow> renderOk w d outputDir n"
  using assms
proof (induction names arbitrary: st)
  case Nil
  show ?case by simp
next
  case (Cons n names)
  show ?case
  proof (cases "map_of templateFiles n")
    case None
    with Cons show ?thesis by simp
  next
    case (Some content)
    have ok: "renderOk w d outputDir n"
    proof (rule ccontr)
      assume "\<not> renderOk w d outputDir n"
      from renderToFile_not_ok [OF Some this, of st] Cons.prems Some show False
        by auto
    qed
    from Cons.prems have "renderFiles w d outputDir names
        (st\<lparr>files := (files st)(Join outputDir [n] \<mapsto> fileText n d)\<rparr>) = (None, st')"
      by (simp add: Some renderToFile_ok [OF Some ok])
    from Cons.IH [OF this] ok show ?thesis by simp
  qed
qed

text \<open>When the loop returns an error, it is the error of one file of the list, under the
  name of that file: the error of the open, wrapped once more, or the error of the write.\<close>

lemma renderFiles_Some:
  assumes "renderFiles w d outputDir names st = (Some err, st')"
  shows "\<exists>n e. n \<in> set names \<and> map_of templateFiles n \<noteq> None \<and>
           err = Errorf (''failed to render '' @ n) e \<and>
           ((\<exists>e'. os_Open w (Join outputDir [n]) = Some e' \<and> e = Errorf ''failed to create file'' e') \<or>
            (\<exists>k. os_Open w (Join outputDir [n]) = None \<and>
                 os_Write w (Join outputDir [n]) = Some (k, e) \<and> k < length (fileText n d)))"
  using assms
proof (induction names arbitrary: st)
  case Nil
  then show ?case by simp
next
  case (Cons n names)
  show ?case
  proof (cases "map_of templateFiles n")
    case None
    with Cons.prems have "renderFiles w d outputDir names st = (Some err, st')" by simp
    from Cons.IH [OF this] show ?thesis by auto
  next
    case (Some content)
    then have ne: "map_of templateFiles n \<noteq> None" by simp
    show ?thesis
    proof (cases "renderOk w d outputDir n")
      case True
      from Cons.prems have "renderFiles w d outputDir names
          (st\<lparr>files := (files st)(Join outputDir [n] \<mapsto> fileText n d)\<rparr>) = (Some err, st')"
        by (simp add: Some renderToFile_ok [OF Some True])
      from Cons.IH [OF this] show ?thesis by auto
    next
      case False
      from renderToFile_not_ok [OF Some False, of st] show ?thesis
      proof (elim disjE exE conjE)
        fix e
        assume o: "os_Open w (Join outputDir [n]) = Some e"
          and r: "renderToFile w content d (Join outputDir [n]) st =
                    (Some (Errorf ''failed to create file'' e), st)"
        from Cons.prems have "err = Errorf (''failed to render '' @ n) (Errorf ''failed to create file'' e)"
          by (simp add: Some r)
        with o ne show ?thesis by auto
      next
        fix k e
        assume o: "os_Open w (Join outputDir [n]) = None"
          and wr: "os_Write w (Join outputDir [n]) = Some (k, e)"
          and k: "k < length (fileText n d)"
          and r: "renderToFile w content d (Join outputDir [n]) st =
                    (Some e, st\<lparr>files := (files st)(Join outputDir [n] \<mapsto> take k (fileText n d))\<rparr>)"
        from Cons.prems have "err = Errorf (''failed to render '' @ n) e"
          by (simp add: Some r)
        with o wr k ne show ?thesis by auto
      qed
    qed
  qed
qed

text \<open>The three static files (lines 131-133).\<close>

definition staticFiles :: "world \<Rightarrow> string \<Rightarrow> fs \<Rightarrow> fs" where
  "staticFiles w outputDir st =
     writeFile w (Join outputDir [''tests.py'']) ''# placeholder\<newline>''
       (writeFile w (Join outputDir [''__init__.py'']) []
          (writeFile w (Join outputDir [''migrations'', ''__init__.py'']) [] st))"

lemma GenerateApp_read_error:
  assumes "os_ReadFile w protoPath = Inl e"
  shows "GenerateApp caser w protoPath outputDir st =
           (Some (Errorf ''failed to read proto file'' e), st)"
  by (simp add: GenerateApp_def ParseProto_def assms)

lemma GenerateApp_mkdir_error:
  assumes "os_ReadFile w protoPath = Inr text"
    and "os_MkdirAll w (Join outputDir [''migrations'']) = Some e"
  shows "GenerateApp caser w protoPath outputDir st =
           (Some (Errorf ''failed to create migrations directory'' e), st)"
  by (simp add: GenerateApp_def ParseProto_def MkdirAll_def assms)

lemma GenerateApp_render:
  assumes "os_ReadFile w protoPath = Inr text"
    and "os_MkdirAll w (Join outputDir [''migrations'']) = None"
  shows "GenerateApp caser w protoPath outputDir st =
           renderFiles w (templateData caser outputDir (parseText text)) outputDir (rangeOrder w)
             (staticFiles w outputDir
                (st\<lparr>dirs := insert (Join outputDir [''migrations'']) (dirs st)\<rparr>))"
  by (simp add: GenerateApp_def ParseProto_def MkdirAll_def assms staticFiles_def Let_def)

text \<open>The nine files of an application, and a run in which neither making the directory nor
  opening or writing one of these files fails.\<close>

definition outputPaths :: "string \<Rightarrow> path list" where
  "outputPaths outputDir =
     [Join outputDir [''migrations'', ''__init__.py''],
      Join outputDir [''__init__.py''],
      Join outputDir [''tests.py''],
      Join outputDir [''models.py''],
      Join outputDir [''serializers.py''],
      Join outputDir [''viewsets.py''],
      Join outputDir [''urls.py''],
      Join outputDir [''admin.py''],
      Join outputDir [''apps.py'']]"

definition succeeds :: "world \<Rightarrow> string \<Rightarrow> bool" where
  "succeeds w outputDir \<longleftrightarrow>
     os_MkdirAll w (Join outputDir [''migrations'']) = None \<and>
     list_all (\<lambda>q. os_Open w q = None \<and> os_Write w q = None) (outputPaths outputDir)"

text \<open>The nine files with their contents, as the specification lists them.\<close>

definition generated :: "(string \<Rightarrow> string) \<Rightarrow> string \<Rightarrow> ProtoMessage list \<Rightarrow> (path \<times> string) list" where
  "generated caser outputDir ms =
     [(Join outputDir [''migrations'', ''__init__.py''], []),
      (Join outputDir [''__init__.py''], []),
      (Join outputDir [''tests.py''], ''# placeholder\<newline>''),
      (Join outputDir [''models.py''], modelsText (templateData caser outputDir ms)),
      (Join outputDir [''serializers.py''], serializersText (templateData caser outputDir ms)),
      (Join outputDir [''viewsets.py''], viewsetsText (templateData caser outputDir ms)),
      (Join outputDir [''urls.py''], urlsText (templateData caser outputDir ms)),
      (Join outputDir [''admin.py''], adminText (templateData caser outputDir ms)),
      (Join outputDir [''apps.py''], appsText (templateData caser outputDir ms))]"

lemma writeFile_ok:
  assumes "os_Open w p = None" and "os_Write w p = None"
  shows "writeFile w p content st = st\<lparr>files := (files st)(p \<mapsto> content)\<rparr>"
  by (simp add: writeFile_def WriteFile_def writeBytes_def assms)

lemma staticFiles_ok:
  assumes "succeeds w outputDir"
  shows "staticFiles w outputDir st =
     st\<lparr>files := (files st)(Join outputDir [''migrations'', ''__init__.py''] \<mapsto> [],
                             Join outputDir [''__init__.py''] \<mapsto> [],
                             Join outputDir [''tests.py''] \<mapsto> ''# placeholder\<newline>'')\<rparr>"
  using assms by (simp add: staticFiles_def succeeds_def outputPaths_def writeFile_ok)

lemma succeeds_renderOk:
  assumes "succeeds w outputDir" and "map_of templateFiles n \<noteq> None"
  shows "renderOk w d outputDir n"
  using assms
  by (auto simp: succeeds_def outputPaths_def renderOk_def map_of_templateFiles split: if_splits)

lemma set_templateFiles: "set (map fst templateFiles) = {n. map_of templateFiles n \<noteq> None}"
  by (auto simp: map_of_templateFiles templateFiles_def)

lemma generated_files:
  assumes "validOrder names"
  shows "m(Join outputDir [''migrations'', ''__init__.py''] \<mapsto> [],
           Join outputDir [''__init__.py''] \<mapsto> [],
           Join outputDir [''tests.py''] \<mapsto> ''# placeholder\<newline>'') ++
         renderedFiles (templateData caser outputDir ms) outputDir (set names) =
         m ++ map_of (generated caser outputDir ms)"
proof (rule ext)
  fix q :: path
  obtain dir elems where q: "q = (dir, elems)" by (cases q)
  from assms have "set names = set (map fst templateFiles)"
    by (simp only: validOrder_def)
  then have n: "set names = {n. map_of templateFiles n \<noteq> None}"
    by (simp only: set_templateFiles)
  show "(m(Join outputDir [''migrations'', ''__init__.py''] \<mapsto> [],
           Join outputDir [''__init__.py''] \<mapsto> [],
           Join outputDir [''tests.py''] \<mapsto> ''# placeholder\<newline>'') ++
         renderedFiles (templateData caser outputDir ms) outputDir (set names)) q =
        (m ++ map_of (generated caser outputDir ms)) q"
    by (auto simp: q n map_add_def renderedFiles_def generated_def Join_def fileText_def
        map_of_templateFiles split: list.splits option.splits if_splits)
qed

text \<open>A run that meets no failure returns no error; it has made the directory and written
  the nine files, whatever the order in which the runtime walks the map.\<close>

lemma GenerateApp_succeeds:
  assumes "os_ReadFile w protoPath = Inr text" and "succeeds w outputDir"
    and "validOrder (rangeOrder w)"
  shows "GenerateApp caser w protoPath outputDir st =
           (None, st\<lparr>dirs := insert (Join outputDir [''migrations'']) (dirs st),
                     files := files st ++ map_of (generated caser outputDir (parseText text))\<rparr>)"
proof -
  from assms(2) have mk: "os_MkdirAll w (Join outputDir [''migrations'']) = None"
    by (simp add: succeeds_def)
  have ok: "\<forall>n \<in> set (rangeOrder w). map_of templateFiles n \<noteq> None \<longrightarrow>
      renderOk w (templateData caser outputDir (parseText text)) outputDir n"
    using succeeds_renderOk [OF assms(2)] by blast
  show ?thesis
    by (simp add: GenerateApp_render [OF assms(1) mk] staticFiles_ok [OF assms(2)]
        renderFiles_ok [OF ok] generated_files [OF assms(3)])
qed

section \<open>Example runs\<close>

text \<open>Worlds and inputs on which the theorems below are tried: a world in which the schema
  file holds \<open>text\<close>, nothing fails and the map is walked in the order \<open>names\<close>; the empty
  file system; the order of the map as the source writes it.\<close>

definition goodWorld :: "string \<Rightarrow> string list \<Rightarrow> world" where
  "goodWorld text names =
     \<lparr>os_ReadFile = (\<lambda>p. Inr text), os_MkdirAll = (\<lambda>q. None), os_Open = (\<lambda>q. None),
      os_Write = (\<lambda>q. None), rangeOrder = names\<rparr>"

definition emptyFs :: fs where
  "emptyFs = \<lparr>dirs = {}, files = Map.empty\<rparr>"

definition sourceOrder :: "string list" where
  "sourceOrder =
     [''models.py'', ''serializers.py'', ''viewsets.py'', ''urls.py'', ''admin.py'', ''apps.py'']"

text \<open>A run in which the test stub cannot be opened for writing, and nothing else fails.\<close>

definition deniedWorld :: world where
  "deniedWorld =
     \<lparr>os_ReadFile = (\<lambda>p. Inr []), os_MkdirAll = (\<lambda>q. None),
      os_Open = (\<lambda>q. if q = Join ''out'' [''tests.py'']
                      then Some (OsError ''permission denied'') else None),
      os_Write = (\<lambda>q. None), rangeOrder = sourceOrder\<rparr>"

text \<open>Runs in which the schema file cannot be read, the directory cannot be made, or the
  route file cannot be created.\<close>

definition unreadableWorld :: world where
  "unreadableWorld =
     \<lparr>os_ReadFile = (\<lambda>p. Inl (OsError ''no such file or directory'')),
      os_MkdirAll = (\<lambda>q. None), os_Open = (\<lambda>q. None), os_Write = (\<lambda>q. None),
      rangeOrder = sourceOrder\<rparr>"

definition noDirWorld :: world where
  "noDirWorld = (goodWorld [] sourceOrder)\<lparr>os_MkdirAll := \<lambda>q. Some (OsError ''read-only file system'')\<rparr>"

definition noUrlsWorld :: world where
  "noUrlsWorld =
     (goodWorld [] sourceOrder)
       \<lparr>os_Open := \<lambda>q. if q = Join ''out'' [''urls.py'']
                         then Some (OsError ''permission denied'') else None\<rparr>"

lemma succeeds_goodWorld: "succeeds (goodWorld text names) outputDir"
  by (simp add: succeeds_def goodWorld_def outputPaths_def)

lemma validOrder_sourceOrder: "validOrder sourceOrder"
  by (simp add: validOrder_def sourceOrder_def templateFiles_def)



lemma parseText_no_match:
  assumes "\<forall>j \<le> length text. matchAt messageRe (drop j text) = None"
  shows "parseText text = []"
proof -
  from assms have "doExecute messageRe text = None" by (simp add: doExecute_None)
  then show ?thesis by (simp add: parseText_def FindAllStringSubmatch_def allMatches_None)
qed

lemma parseFields_no_match:
  assumes "\<forall>j \<le> length body. matchAt fieldRe (drop j body) = None"
  shows "parseFields body = []"
proof -
  from assms have "doExecute fieldRe body = None" by (simp add: doExecute_None)
  then show ?thesis by (simp add: parseFields_def FindAllStringSubmatch_def allMatches_None)
qed

section \<open>The type mapper: properties\<close>

lemma PythonType_scalars:
  "PythonType ''int32'' = ''models.IntegerField()''"
  "PythonType ''int64'' = ''models.IntegerField()''"
  "PythonType ''string'' = ''models.CharField(max_length=255)''"
  "PythonType ''bool'' = ''models.BooleanField()''"
  "PythonType ''float'' = ''models.FloatField()''"
  "PythonType ''double'' = ''models.FloatField()''"
  by (simp_all add: PythonType_def)

lemma PythonType_other:
  "t \<notin> set [''int32'', ''int64'', ''string'', ''bool'', ''float'', ''double''] \<Longrightarrow>
     PythonType t = ''models.ForeignKey('' @ t @ '', on_delete=models.CASCADE)''"
  by (simp add: PythonType_def)

lemma PythonType_nonempty: "PythonType t \<noteq> []"
  by (simp add: PythonType_def)

text \<open>
  C1. The type mapper is a total function (the \<^verbatim>\<open>switch\<close> has a \<^verbatim>\<open>default\<close> and no branch
  panics): for every type string \<open>t\<close> it returns a declaration that is not empty; the six
  scalar types map as the table of the specification says; and every other string gives
  the relation field that holds \<open>t\<close> unchanged, with \<^verbatim>\<open>on_delete=models.CASCADE\<close>.
\<close>

theorem C1_PythonType_total:
  "PythonType t \<noteq> [] \<and>
   PythonType ''int32'' = ''models.IntegerField()'' \<and>
   PythonType ''int64'' = ''models.IntegerField()'' \<and>
   PythonType ''string'' = ''models.CharField(max_length=255)'' \<and>
   PythonType ''bool'' = ''models.BooleanField()'' \<and>
   PythonType ''float'' = ''models.FloatField()'' \<and>
   PythonType ''double'' = ''models.FloatField()'' \<and>
   (t \<notin> set [''int32'', ''int64'', ''string'', ''bool'', ''float'', ''double''] \<longrightarrow>
      PythonType t = ''models.ForeignKey('' @ t @ '', on_delete=models.CASCADE)'')"
  using PythonType_nonempty [of t] PythonType_scalars PythonType_other [of t]
  by blast

theorem C1_PythonType_total_witness:
  "''Author'' \<notin> set [''int32'', ''int64'', ''string'', ''bool'', ''float'', ''double''] \<and>
   PythonType ''Author'' = ''models.ForeignKey(Author, on_delete=models.CASCADE)'' \<and>
   PythonType ''Author'' \<noteq> []"
  using C1_PythonType_total [of "''Author''"] by simp

text \<open>
  C2. For every schema text: the parser turns the matches of the message pattern into
  messages in the order in which they begin in the text; the matches do not overlap, each
  is a match of the pattern at its offset, and every place where the pattern matches lies
  inside one of them. The same holds for the field pattern within a message body. The
  file of model declarations is the lines \<open>modelsLines\<close> joined by newlines: after each
  class line, one declaration line for each field, in the order of the parsed fields;
  none of these lines holds a newline.
\<close>

theorem C2_order_preserved:
  "parseText text =
     map (\<lambda>(b, e, g). \<lparr>pm_Name = g 1, pm_Fields = parseFields (g 2)\<rparr>)
       (allMatches messageRe 0 text) \<and>
   sorted_wrt (\<lambda>(b, e, g) (b', e', g'). e \<le> b') (allMatches messageRe 0 text) \<and>
   (\<forall>(b, e, g) \<in> set (allMatches messageRe 0 text).
      b < e \<and> e \<le> length text \<and> matchAt messageRe (drop b text) = Some (drop e text, g)) \<and>
   (\<forall>j \<le> length text. matchAt messageRe (drop j text) \<noteq> None \<longrightarrow>
      (\<exists>(b, e, g) \<in> set (allMatches messageRe 0 text). b \<le> j \<and> j < e)) \<and>
   parseFields body =
     map (\<lambda>(b, e, g). \<lparr>pf_Name = g 3, pf_Type = g 2,
                        pf_Repeated = (TrimSpace (g 1) = ''repeated'')\<rparr>)
       (allMatches fieldRe 0 body) \<and>
   sorted_wrt (\<lambda>(b, e, g) (b', e', g'). e \<le> b') (allMatches fieldRe 0 body) \<and>
   (\<forall>(b, e, g) \<in> set (allMatches fieldRe 0 body).
      b < e \<and> e \<le> length body \<and> matchAt fieldRe (drop b body) = Some (drop e body, g)) \<and>
   (\<forall>j \<le> length body. matchAt fieldRe (drop j body) \<noteq> None \<longrightarrow>
      (\<exists>(b, e, g) \<in> set (allMatches fieldRe 0 body). b \<le> j \<and> j < e)) \<and>
   renderText modelsTemplate (templateData caser outputDir (parseText text)) =
     Inr (joinLines (modelsLines (parseText text)), None) \<and>
   (\<forall>l \<in> set (modelsLines (parseText text)). CHR ''\<newline>'' \<notin> set l)"
proof -
  have sound: "\<forall>(b, e, g) \<in> set (allMatches r 0 s).
      b < e \<and> e \<le> length s \<and> matchAt r (drop b s) = Some (drop e s, g)"
    if ne: "\<And>xs ys g. matchAt r xs = Some (ys, g) \<Longrightarrow> length ys < length xs" for r s
  proof (rule ballI)
    fix x assume x: "x \<in> set (allMatches r 0 s)"
    obtain b e g where xe: "x = (b, e, g)" by (cases x)
    from allMatches_sound [OF x [unfolded xe]] have 1: "b \<le> e" "e \<le> length s"
      and 2: "matchAt r (drop b s) = Some (drop e s, g)" by simp_all
    from ne [OF 2] 1 have "b < e" by simp
    with 1 2 show "case x of (b, e, g) \<Rightarrow>
        b < e \<and> e \<le> length s \<and> matchAt r (drop b s) = Some (drop e s, g)"
      unfolding xe by simp
  qed
  have complete: "\<forall>j \<le> length s. matchAt r (drop j s) \<noteq> None \<longrightarrow>
      (\<exists>(b, e, g) \<in> set (allMatches r 0 s). b \<le> j \<and> j < e)"
    if ne: "\<And>xs ys g. matchAt r xs = Some (ys, g) \<Longrightarrow> length ys < length xs" for r s
  proof (intro allI impI)
    fix j assume j: "j \<le> length s" and m: "matchAt r (drop j s) \<noteq> None"
    have "0 \<le> j" "j \<le> 0 + length s" "matchAt r (drop (j - 0) s) \<noteq> None"
      using j m by simp_all
    with ne show "\<exists>(b, e, g) \<in> set (allMatches r 0 s). b \<le> j \<and> j < e"
      by (rule allMatches_complete)
  qed
  have p1: "parseText text =
     map (\<lambda>(b, e, g). \<lparr>pm_Name = g 1, pm_Fields = parseFields (g 2)\<rparr>)
       (allMatches messageRe 0 text)"
    by (simp add: parseText_def FindAllStringSubmatch_def case_prod_unfold comp_def)
  have p2: "parseFields body =
     map (\<lambda>(b, e, g). \<lparr>pf_Name = g 3, pf_Type = g 2,
                        pf_Repeated = (TrimSpace (g 1) = ''repeated'')\<rparr>)
       (allMatches fieldRe 0 body)"
    by (simp add: parseFields_def FindAllStringSubmatch_def case_prod_unfold comp_def)
  have s1: "\<forall>(b, e, g) \<in> set (allMatches messageRe 0 text).
      b < e \<and> e \<le> length text \<and> matchAt messageRe (drop b text) = Some (drop e text, g)"
    by (rule sound [of messageRe, OF matchAt_messageRe_shorter])
  have s2: "\<forall>(b, e, g) \<in> set (allMatches fieldRe 0 body).
      b < e \<and> e \<le> length body \<and> matchAt fieldRe (drop b body) = Some (drop e body, g)"
    by (rule sound [of fieldRe, OF matchAt_fieldRe_shorter])
  have c1: "\<forall>j \<le> length text. matchAt messageRe (drop j text) \<noteq> None \<longrightarrow>
      (\<exists>(b, e, g) \<in> set (allMatches messageRe 0 text). b \<le> j \<and> j < e)"
    by (rule complete [of messageRe, OF matchAt_messageRe_shorter])
  have c2: "\<forall>j \<le> length body. matchAt fieldRe (drop j body) \<noteq> None \<longrightarrow>
      (\<exists>(b, e, g) \<in> set (allMatches fieldRe 0 body). b \<le> j \<and> j < e)"
    by (rule complete [of fieldRe, OF matchAt_fieldRe_shorter])
  have r: "renderText modelsTemplate (templateData caser outputDir (parseText text)) =
     Inr (joinLines (modelsLines (parseText text)), None)"
    by (simp only: renderText_models modelsText_lines)
  have n: "\<forall>l \<in> set (modelsLines (parseText text)). CHR ''\<newline>'' \<notin> set l"
    using modelsLines_no_newline by blast
  from p1 allMatches_sorted s1 c1 p2 allMatches_sorted s2 c2 r n show ?thesis
    by (intro conjI)
qed

lemma parseText_User:
  "parseText ''message User { string name = 1; int32 age = 2; }'' =
     [\<lparr>pm_Name = ''User'',
       pm_Fields = [\<lparr>pf_Name = ''name'', pf_Type = ''string'', pf_Repeated = False\<rparr>,
                    \<lparr>pf_Name = ''age'', pf_Type = ''int32'', pf_Repeated = False\<rparr>]\<rparr>]"
  by code_simp

theorem C2_order_preserved_witness:
  "parseText ''message User { string name = 1; int32 age = 2; }'' =
     [\<lparr>pm_Name = ''User'',
       pm_Fields = [\<lparr>pf_Name = ''name'', pf_Type = ''string'', pf_Repeated = False\<rparr>,
                    \<lparr>pf_Name = ''age'', pf_Type = ''int32'', pf_Repeated = False\<rparr>]\<rparr>] \<and>
   renderText modelsTemplate
     (templateData id ''accounts'' (parseText ''message User { string name = 1; int32 age = 2; }'')) =
     Inr (''from django.db import models\<newline>'' @
          ''class User(models.Model):\<newline>'' @
          ''    name = models.CharField(max_length=255)\<newline>'' @
          ''    age = models.IntegerField()\<newline>'' @
          ''\<newline>'', None)"
proof -
  have "renderText modelsTemplate
      (templateData id ''accounts'' (parseText ''message User { string name = 1; int32 age = 2; }'')) =
     Inr (joinLines (modelsLines (parseText ''message User { string name = 1; int32 age = 2; }'')),
          None)"
    using C2_order_preserved [of "''message User { string name = 1; int32 age = 2; }''"
      "'' string name = 1; int32 age = 2; ''" id "''accounts''"]
    by (elim conjE)
  then show ?thesis
    by (simp add: parseText_User modelsLines_def classLines_def classBody_def fieldDeclLine_def
        PythonType_def)
qed

text \<open>
  C3 as the specification states it does not hold: the error of writing a static file is
  dropped. In \<open>deniedWorld\<close> the write of the test stub fails, yet \<^verbatim>\<open>GenerateApp\<close> returns
  no error, the process reports success and exits with status 0, and the file is not
  there.
\<close>

theorem C3_counterexample:
  "WriteFile deniedWorld (Join ''out'' [''tests.py'']) ''# placeholder\<newline>'' emptyFs =
     (Some (OsError ''permission denied''), emptyFs) \<and>
   fst (GenerateApp id deniedWorld ''in.proto'' ''out'' emptyFs) = None \<and>
   files (snd (GenerateApp id deniedWorld ''in.proto'' ''out'' emptyFs))
     (Join ''out'' [''tests.py'']) = None \<and>
   fst (main id deniedWorld ''in.proto'' ''out'' emptyFs) =
     Exit 0 ([CHR 0xE2, CHR 0x9C, CHR 0x85] @ '' Django app generated at out\<newline>'')"
proof -
  have r: "os_ReadFile deniedWorld ''in.proto'' = Inr []"
    and mk: "os_MkdirAll deniedWorld (Join ''out'' [''migrations'']) = None"
    by (simp_all add: deniedWorld_def)
  have ok: "\<forall>n \<in> set (rangeOrder deniedWorld). map_of templateFiles n \<noteq> None \<longrightarrow>
      renderOk deniedWorld (templateData id ''out'' (parseText [])) ''out'' n"
    by (simp add: deniedWorld_def sourceOrder_def renderOk_def Join_def)
  have w: "WriteFile deniedWorld (Join ''out'' [''tests.py'']) ''# placeholder\<newline>'' emptyFs =
     (Some (OsError ''permission denied''), emptyFs)"
    by (simp add: WriteFile_def deniedWorld_def)
  have g: "GenerateApp id deniedWorld ''in.proto'' ''out'' emptyFs =
      (None,
       (staticFiles deniedWorld ''out''
          (emptyFs\<lparr>dirs := insert (Join ''out'' [''migrations'']) (dirs emptyFs)\<rparr>))
       \<lparr>files := files (staticFiles deniedWorld ''out''
          (emptyFs\<lparr>dirs := insert (Join ''out'' [''migrations'']) (dirs emptyFs)\<rparr>)) ++
          renderedFiles (templateData id ''out'' (parseText [])) ''out''
            (set (rangeOrder deniedWorld))\<rparr>)"
    by (simp only: GenerateApp_render [OF r mk] renderFiles_ok [OF ok])
  have s: "files (staticFiles deniedWorld ''out''
          (emptyFs\<lparr>dirs := insert (Join ''out'' [''migrations'']) (dirs emptyFs)\<rparr>))
          (Join ''out'' [''tests.py'']) = None"
    by (simp add: staticFiles_def writeFile_def WriteFile_def writeBytes_def deniedWorld_def
        emptyFs_def Join_def)
  have f: "renderedFiles d ''out'' N (Join ''out'' [''tests.py'']) = None" for d N
    by (simp add: renderedFiles_def Join_def map_of_templateFiles)
  from w g s f show ?thesis
    by (simp add: main_def map_add_def)
qed

text \<open>
  C3, amended. A failure of the input read, of the directory creation, of a template's
  syntax, of the creation of a rendered file or of the execution of a template ends the
  run where it happens: \<^verbatim>\<open>GenerateApp\<close> returns the error at once, wrapped under a message
  that names the stage (the read, the directory, or the file that was being rendered; an
  error of the template's syntax or of the file's creation is wrapped once more inside
  \<^verbatim>\<open>renderToFile\<close>), and \<^verbatim>\<open>main\<close> logs it and exits with status 1. When \<^verbatim>\<open>GenerateApp\<close>
  returns no error, none of these operations failed. The error of writing one of the three
  static files is not among them: \<^verbatim>\<open>writeFile\<close> drops it and the run goes on.
\<close>

theorem C3_errors_propagated:
  "(\<forall>e. os_ReadFile w protoPath = Inl e \<longrightarrow>
      GenerateApp caser w protoPath outputDir st =
        (Some (Errorf ''failed to read proto file'' e), st)) \<and>
   (\<forall>text e. os_ReadFile w protoPath = Inr text \<and>
        os_MkdirAll w (Join outputDir [''migrations'']) = Some e \<longrightarrow>
      GenerateApp caser w protoPath outputDir st =
        (Some (Errorf ''failed to create migrations directory'' e), st)) \<and>
   (\<forall>content d q e. Parse content = Inl e \<longrightarrow>
      renderToFile w content d q st = (Some (Errorf ''failed to parse template'' e), st)) \<and>
   (\<forall>content tmpl d q e. Parse content = Inr tmpl \<and> os_Open w q = Some e \<longrightarrow>
      renderToFile w content d q st = (Some (Errorf ''failed to create file'' e), st)) \<and>
   (\<forall>content tmpl d q. Parse content = Inr tmpl \<and> os_Open w q = None \<longrightarrow>
      renderToFile w content d q st = Execute w tmpl q d (st\<lparr>files := (files st)(q \<mapsto> [])\<rparr>)) \<and>
   (\<forall>d name names content e st'.
      map_of templateFiles name = Some content \<and>
      renderToFile w content d (Join outputDir [name]) st = (Some e, st') \<longrightarrow>
      renderFiles w d outputDir (name # names) st =
        (Some (Errorf (''failed to render '' @ name) e), st')) \<and>
   (\<forall>err st'. GenerateApp caser w protoPath outputDir st = (Some err, st') \<longrightarrow>
      (\<exists>msg e. err = Errorf msg e \<and>
         (msg = ''failed to read proto file'' \<or>
          msg = ''failed to create migrations directory'' \<or>
          (\<exists>n \<in> set (rangeOrder w). msg = ''failed to render '' @ n))) \<and>
      (protoPath \<noteq> [] \<longrightarrow>
         main caser w protoPath outputDir st = (Exit 1 (''Error: '' @ Error err), st'))) \<and>
   (\<forall>st'. GenerateApp caser w protoPath outputDir st = (None, st') \<longrightarrow>
      (\<exists>text. os_ReadFile w protoPath = Inr text \<and>
         os_MkdirAll w (Join outputDir [''migrations'']) = None \<and>
         (\<forall>n \<in> set (rangeOrder w). map_of templateFiles n \<noteq> None \<longrightarrow>
            renderOk w (templateData caser outputDir (parseText text)) outputDir n))) \<and>
   (\<forall>q content. writeFile w q content st = snd (WriteFile w q content st))"
proof -
  have c1: "\<forall>e. os_ReadFile w protoPath = Inl e \<longrightarrow>
      GenerateApp caser w protoPath outputDir st =
        (Some (Errorf ''failed to read proto file'' e), st)"
    by (simp add: GenerateApp_read_error)
  have c2: "\<forall>text e. os_ReadFile w protoPath = Inr text \<and>
        os_MkdirAll w (Join outputDir [''migrations'']) = Some e \<longrightarrow>
      GenerateApp caser w protoPath outputDir st =
        (Some (Errorf ''failed to create migrations directory'' e), st)"
    by (simp add: GenerateApp_mkdir_error)
  have c3: "\<forall>content d q e. Parse content = Inl e \<longrightarrow>
      renderToFile w content d q st = (Some (Errorf ''failed to parse template'' e), st)"
    by (simp add: renderToFile_def)
  have c4: "\<forall>content tmpl d q e. Parse content = Inr tmpl \<and> os_Open w q = Some e \<longrightarrow>
      renderToFile w content d q st = (Some (Errorf ''failed to create file'' e), st)"
    by (simp add: renderToFile_def Create_def)
  have c5: "\<forall>content tmpl d q. Parse content = Inr tmpl \<and> os_Open w q = None \<longrightarrow>
      renderToFile w content d q st = Execute w tmpl q d (st\<lparr>files := (files st)(q \<mapsto> [])\<rparr>)"
    by (simp add: renderToFile_def Create_def)
  have c6: "\<forall>d name names content e st'.
      map_of templateFiles name = Some content \<and>
      renderToFile w content d (Join outputDir [name]) st = (Some e, st') \<longrightarrow>
      renderFiles w d outputDir (name # names) st =
        (Some (Errorf (''failed to render '' @ name) e), st')"
    by simp
  have c7: "\<forall>err st'. GenerateApp caser w protoPath outputDir st = (Some err, st') \<longrightarrow>
      (\<exists>msg e. err = Errorf msg e \<and>
         (msg = ''failed to read proto file'' \<or>
          msg = ''failed to create migrations directory'' \<or>
          (\<exists>n \<in> set (rangeOrder w). msg = ''failed to render '' @ n))) \<and>
      (protoPath \<noteq> [] \<longrightarrow>
         main caser w protoPath outputDir st = (Exit 1 (''Error: '' @ Error err), st'))"
  proof (intro allI impI conjI)
    fix err st'
    assume g: "GenerateApp caser w protoPath outputDir st = (Some err, st')"
    then show "main caser w protoPath outputDir st = (Exit 1 (''Error: '' @ Error err), st')"
      if "protoPath \<noteq> []" using that by (simp add: main_def)
    show "\<exists>msg e. err = Errorf msg e \<and>
         (msg = ''failed to read proto file'' \<or>
          msg = ''failed to create migrations directory'' \<or>
          (\<exists>n \<in> set (rangeOrder w). msg = ''failed to render '' @ n))"
    proof (cases "os_ReadFile w protoPath")
      case (Inl e)
      from g GenerateApp_read_error [OF Inl, of caser outputDir st]
      have "err = Errorf ''failed to read proto file'' e" by simp
      then show ?thesis by blast
    next
      case (Inr t)
      show ?thesis
      proof (cases "os_MkdirAll w (Join outputDir [''migrations''])")
        case (Some e)
        from g GenerateApp_mkdir_error [OF Inr Some, of caser st]
        have "err = Errorf ''failed to create migrations directory'' e" by simp
        then show ?thesis by blast
      next
        case None
        from g [unfolded GenerateApp_render [OF Inr None]] renderFiles_Some
        obtain n e where "n \<in> set (rangeOrder w)" "err = Errorf (''failed to render '' @ n) e"
          by blast
        then show ?thesis by blast
      qed
    qed
  qed
  have c8: "\<forall>st'. GenerateApp caser w protoPath outputDir st = (None, st') \<longrightarrow>
      (\<exists>text. os_ReadFile w protoPath = Inr text \<and>
         os_MkdirAll w (Join outputDir [''migrations'']) = None \<and>
         (\<forall>n \<in> set (rangeOrder w). map_of templateFiles n \<noteq> None \<longrightarrow>
            renderOk w (templateData caser outputDir (parseText text)) outputDir n))"
  proof (intro allI impI)
    fix st'
    assume g: "GenerateApp caser w protoPath outputDir st = (None, st')"
    show "\<exists>text. os_ReadFile w protoPath = Inr text \<and>
         os_MkdirAll w (Join outputDir [''migrations'']) = None \<and>
         (\<forall>n \<in> set (rangeOrder w). map_of templateFiles n \<noteq> None \<longrightarrow>
            renderOk w (templateData caser outputDir (parseText text)) outputDir n)"
    proof (cases "os_ReadFile w protoPath")
      case (Inl e)
      from g GenerateApp_read_error [OF Inl, of caser outputDir st] show ?thesis by simp
    next
      case (Inr t)
      show ?thesis
      proof (cases "os_MkdirAll w (Join outputDir [''migrations''])")
        case (Some e)
        from g GenerateApp_mkdir_error [OF Inr Some, of caser st] show ?thesis by simp
      next
        case None
        from renderFiles_None [OF g [unfolded GenerateApp_render [OF Inr None]]] Inr None
        show ?thesis by simp
      qed
    qed
  qed
  have c9: "\<forall>q content. writeFile w q content st = snd (WriteFile w q content st)"
    by (simp add: writeFile_def)
  from c1 c2 c3 c4 c5 c6 c7 c8 c9 show ?thesis by (intro conjI)
qed

theorem C3_errors_propagated_witness:
  "GenerateApp id unreadableWorld ''missing.proto'' ''out'' emptyFs =
     (Some (Errorf ''failed to read proto file'' (OsError ''no such file or directory'')), emptyFs) \<and>
   main id unreadableWorld ''missing.proto'' ''out'' emptyFs =
     (Exit 1 ''Error: failed to read proto file: no such file or directory'', emptyFs) \<and>
   GenerateApp id noDirWorld ''in.proto'' ''out'' emptyFs =
     (Some (Errorf ''failed to create migrations directory'' (OsError ''read-only file system'')),
      emptyFs) \<and>
   renderToFile noUrlsWorld ''{{ .AppName'' (templateData id ''out'' []) (Join ''out'' [''apps.py''])
       emptyFs =
     (Some (Errorf ''failed to parse template'' (OsError ''template: unclosed action'')), emptyFs) \<and>
   renderFiles noUrlsWorld (templateData id ''out'' []) ''out'' [''urls.py'', ''admin.py''] emptyFs =
     (Some (Errorf ''failed to render urls.py''
        (Errorf ''failed to create file'' (OsError ''permission denied''))), emptyFs)"
proof -
  note t1 = C3_errors_propagated [of unreadableWorld "''missing.proto''" id "''out''" emptyFs]
  note t2 = C3_errors_propagated [of noDirWorld "''in.proto''" id "''out''" emptyFs]
  note t3 = C3_errors_propagated [of noUrlsWorld "''in.proto''" id "''out''" emptyFs]
  have r1: "os_ReadFile unreadableWorld ''missing.proto'' = Inl (OsError ''no such file or directory'')"
    by (simp add: unreadableWorld_def)
  have a: "GenerateApp id unreadableWorld ''missing.proto'' ''out'' emptyFs =
     (Some (Errorf ''failed to read proto file'' (OsError ''no such file or directory'')), emptyFs)"
    by (rule t1 [THEN conjunct1, rule_format, OF r1])
  have m: "''missing.proto'' \<noteq> []" by simp
  have "main id unreadableWorld ''missing.proto'' ''out'' emptyFs =
     (Exit 1 (''Error: '' @ Error (Errorf ''failed to read proto file''
        (OsError ''no such file or directory''))), emptyFs)"
    by (rule t1 [THEN conjunct2, THEN conjunct2, THEN conjunct2, THEN conjunct2, THEN conjunct2,
          THEN conjunct2, THEN conjunct1, THEN spec, THEN spec, THEN mp, OF a, THEN conjunct2,
          THEN mp, OF m])
  then have b: "main id unreadableWorld ''missing.proto'' ''out'' emptyFs =
     (Exit 1 ''Error: failed to read proto file: no such file or directory'', emptyFs)"
    by simp
  have r2: "os_ReadFile noDirWorld ''in.proto'' = Inr [] \<and>
      os_MkdirAll noDirWorld (Join ''out'' [''migrations'']) = Some (OsError ''read-only file system'')"
    by (simp add: noDirWorld_def goodWorld_def)
  have c: "GenerateApp id noDirWorld ''in.proto'' ''out'' emptyFs =
     (Some (Errorf ''failed to create migrations directory'' (OsError ''read-only file system'')),
      emptyFs)"
    by (rule t2 [THEN conjunct2, THEN conjunct1, rule_format, OF r2])
  have r3: "Parse ''{{ .AppName'' = Inl (OsError ''template: unclosed action'')"
    by (simp add: parse_simps)
  have d: "renderToFile noUrlsWorld ''{{ .AppName'' (templateData id ''out'' [])
       (Join ''out'' [''apps.py'']) emptyFs =
     (Some (Errorf ''failed to parse template'' (OsError ''template: unclosed action'')), emptyFs)"
    by (rule t3 [THEN conjunct2, THEN conjunct2, THEN conjunct1, rule_format, OF r3])
  have r4: "map_of templateFiles ''urls.py'' = Some urlsTemplate"
    by (simp add: map_of_templateFiles)
  have r5: "renderToFile noUrlsWorld urlsTemplate (templateData id ''out'' [])
       (Join ''out'' [''urls.py'']) emptyFs =
     (Some (Errorf ''failed to create file'' (OsError ''permission denied'')), emptyFs)"
    by (simp add: renderToFile_templateFiles [OF r4] noUrlsWorld_def)
  have "renderFiles noUrlsWorld (templateData id ''out'' []) ''out''
       [''urls.py'', ''admin.py''] emptyFs =
     (Some (Errorf (''failed to render '' @ ''urls.py'')
        (Errorf ''failed to create file'' (OsError ''permission denied''))), emptyFs)"
    by (rule t3 [THEN conjunct2, THEN conjunct2, THEN conjunct2, THEN conjunct2, THEN conjunct2,
          THEN conjunct1, rule_format, OF conjI [OF r4 r5]])
  then have e: "renderFiles noUrlsWorld (templateData id ''out'' []) ''out''
       [''urls.py'', ''admin.py''] emptyFs =
     (Some (Errorf ''failed to render urls.py''
        (Errorf ''failed to create file'' (OsError ''permission denied''))), emptyFs)"
    by simp
  from a b c d e show ?thesis by (intro conjI)
qed



text \<open>
  C10. When the pattern of a message block matches nowhere in the schema text (the empty
  text is such a text) and no operation on the directory and the nine files fails, the
  run returns no error, and it has written nine files: the two package markers are empty,
  the test stub is the one line \<^verbatim>\<open># placeholder\<close>, and the six rendered files hold
  the fixed text of their templates with nothing for any message (the application
  config holds the title and the name of the application).
\<close>

theorem C10_no_messages:
  assumes "os_ReadFile w protoPath = Inr text"
    and "\<forall>j \<le> length text. matchAt messageRe (drop j text) = None"
    and "succeeds w outputDir" and "validOrder (rangeOrder w)"
  shows "GenerateApp caser w protoPath outputDir st =
     (None,
      st\<lparr>dirs := insert (Join outputDir [''migrations'']) (dirs st),
         files := files st ++ map_of
           [(Join outputDir [''migrations'', ''__init__.py''], []),
            (Join outputDir [''__init__.py''], []),
            (Join outputDir [''tests.py''], ''# placeholder\<newline>''),
            (Join outputDir [''models.py''], ''from django.db import models\<newline>''),
            (Join outputDir [''serializers.py''],
               ''from rest_framework import serializers\<newline>'' @
               ''\<newline>\<newline>\<newline>''),
            (Join outputDir [''viewsets.py''],
               ''from rest_framework import viewsets\<newline>'' @
               ''\<newline>\<newline>\<newline>''),
            (Join outputDir [''urls.py''],
               ''from django.urls import path, include\<newline>'' @
               ''from rest_framework.routers import DefaultRouter\<newline>'' @
               ''\<newline>\<newline>'' @
               ''router = DefaultRouter()\<newline>'' @
               ''\<newline>\<newline>'' @
               ''urlpatterns = [\<newline>'' @
               ''    path('' @ [CHR 0x27, CHR 0x27] @ '', include(router.urls)),\<newline>'' @
               '']\<newline>''),
            (Join outputDir [''admin.py''],
               ''from django.contrib import admin\<newline>'' @
               ''\<newline>\<newline>\<newline>''),
            (Join outputDir [''apps.py''],
               ''from django.apps import AppConfig\<newline>'' @
               ''\<newline>'' @
               ''class '' @ caser (Base outputDir) @ ''Config(AppConfig):\<newline>'' @
               ''    default_auto_field = 'django.db.models.BigAutoField'\<newline>'' @
               ''    name = '' @ [CHR 0x27] @ Base outputDir @ [CHR 0x27] @ ''\<newline>'')]\<rparr>) \<and>
     distinct (outputPaths outputDir) \<and> length (outputPaths outputDir) = 9"
proof -
  have g: "generated caser outputDir [] =
           [(Join outputDir [''migrations'', ''__init__.py''], []),
            (Join outputDir [''__init__.py''], []),
            (Join outputDir [''tests.py''], ''# placeholder\<newline>''),
            (Join outputDir [''models.py''], ''from django.db import models\<newline>''),
            (Join outputDir [''serializers.py''],
               ''from rest_framework import serializers\<newline>'' @
               ''\<newline>\<newline>\<newline>''),
            (Join outputDir [''viewsets.py''],
               ''from rest_framework import viewsets\<newline>'' @
               ''\<newline>\<newline>\<newline>''),
            (Join outputDir [''urls.py''],
               ''from django.urls import path, include\<newline>'' @
               ''from rest_framework.routers import DefaultRouter\<newline>'' @
               ''\<newline>\<newline>'' @
               ''router = DefaultRouter()\<newline>'' @
               ''\<newline>\<newline>'' @
               ''urlpatterns = [\<newline>'' @
               ''    path('' @ [CHR 0x27, CHR 0x27] @ '', include(router.urls)),\<newline>'' @
               '']\<newline>''),
            (Join outputDir [''admin.py''],
               ''from django.contrib import admin\<newline>'' @
               ''\<newline>\<newline>\<newline>''),
            (Join outputDir [''apps.py''],
               ''from django.apps import AppConfig\<newline>'' @
               ''\<newline>'' @
               ''class '' @ caser (Base outputDir) @ ''Config(AppConfig):\<newline>'' @
               ''    default_auto_field = 'django.db.models.BigAutoField'\<newline>'' @
               ''    name = '' @ [CHR 0x27] @ Base outputDir @ [CHR 0x27] @ ''\<newline>'')]"
    by (simp add: generated_def templateData_def Let_def modelsText_def serializersText_def
        viewsetsText_def urlsText_def adminText_def appsText_def)
  have p: "parseText text = []" by (rule parseText_no_match [OF assms(2)])
  have d: "distinct (outputPaths outputDir) \<and> length (outputPaths outputDir) = 9"
    by (simp add: outputPaths_def Join_def)
  from GenerateApp_succeeds [OF assms(1,3,4), of caser st] d show ?thesis
    unfolding p g by (intro conjI) simp_all
qed

theorem C10_no_messages_witness:
  "GenerateApp id (goodWorld [] sourceOrder) ''empty.proto'' ''generated_app'' emptyFs =
     (None,
      \<lparr>dirs = {Join ''generated_app'' [''migrations'']},
       files = map_of
         [(Join ''generated_app'' [''migrations'', ''__init__.py''], []),
          (Join ''generated_app'' [''__init__.py''], []),
          (Join ''generated_app'' [''tests.py''], ''# placeholder\<newline>''),
          (Join ''generated_app'' [''models.py''], ''from django.db import models\<newline>''),
          (Join ''generated_app'' [''serializers.py''],
             ''from rest_framework import serializers\<newline>'' @
             ''\<newline>\<newline>\<newline>''),
          (Join ''generated_app'' [''viewsets.py''],
             ''from rest_framework import viewsets\<newline>'' @
             ''\<newline>\<newline>\<newline>''),
          (Join ''generated_app'' [''urls.py''],
             ''from django.urls import path, include\<newline>'' @
             ''from rest_framework.routers import DefaultRouter\<newline>'' @
             ''\<newline>\<newline>'' @
             ''router = DefaultRouter()\<newline>'' @
             ''\<newline>\<newline>'' @
             ''urlpatterns = [\<newline>'' @
             ''    path('' @ [CHR 0x27, CHR 0x27] @ '', include(router.urls)),\<newline>'' @
             '']\<newline>''),
          (Join ''generated_app'' [''admin.py''],
             ''from django.contrib import admin\<newline>'' @
             ''\<newline>\<newline>\<newline>''),
          (Join ''generated_app'' [''apps.py''],
             ''from django.apps import AppConfig\<newline>'' @
             ''\<newline>'' @
             ''class generated_appConfig(AppConfig):\<newline>'' @
             ''    default_auto_field = 'django.db.models.BigAutoField'\<newline>'' @
             ''    name = 'generated_app'\<newline>'')]\<rparr>)"
proof -
  have r: "os_ReadFile (goodWorld [] sourceOrder) ''empty.proto'' = Inr []"
    by (simp add: goodWorld_def)
  have n: "\<forall>j \<le> length ([] :: string). matchAt messageRe (drop j []) = None"
    by (simp add: matchAt_def messageRe_def)
  have v: "validOrder (rangeOrder (goodWorld [] sourceOrder))"
    using validOrder_sourceOrder by (simp add: goodWorld_def)
  have b: "Base ''generated_app'' = ''generated_app''"
    by (simp add: Base_def)
  from C10_no_messages [where outputDir = "''generated_app''" and caser = id and st = emptyFs,
      OF r n succeeds_goodWorld v]
  show ?thesis by (simp add: emptyFs_def b)
qed

end
